theory Spec2Isabelle
  imports Complex_Main "HOL-Library.Word"
begin

section \<open>Strings and images\<close>

text \<open>
  A JavaScript string is a sequence of UTF-16 code units.  String literals of the
  source are written with \<open>lit\<close>.
\<close>

type_synonym jsstring = "16 word list"

definition lit :: "string \<Rightarrow> jsstring" where
  "lit s = map of_char s"

text \<open>\<^verbatim>\<open>interface SourceImage { base64: string; mimeType: string; }\<close>\<close>

record SourceImage =
  base64 :: jsstring
  mimeType :: jsstring

section \<open>Raster surfaces\<close>

text \<open>
  A pixel holds four 8-bit channels with straight (not premultiplied) alpha, the
  form in which \<^verbatim>\<open>ImageData.data\<close> exposes it.  \<^verbatim>\<open>ImageData\<close> is a width, a height
  and the pixels in row-major order.
\<close>

record rgba =
  red :: nat
  green :: nat
  blue :: nat
  alpha :: nat

record ImageData =
  width :: nat
  height :: nat
  data :: "rgba list"

definition transparent :: rgba where
  "transparent = \<lparr>red = 0, green = 0, blue = 0, alpha = 0\<rparr>"

definition black :: rgba where
  "black = \<lparr>red = 0, green = 0, blue = 0, alpha = 255\<rparr>"

definition white :: rgba where
  "white = \<lparr>red = 255, green = 255, blue = 255, alpha = 255\<rparr>"

text \<open>The bitmap of a canvas that has just been given a size: transparent black.\<close>

definition blank :: "nat \<Rightarrow> nat \<Rightarrow> ImageData" where
  "blank w h = \<lparr>width = w, height = h, data = replicate (w * h) transparent\<rparr>"

text \<open>Reading the pixel at column \<open>x\<close>, row \<open>y\<close>; outside the bitmap there is nothing.\<close>

definition pixelAt :: "ImageData \<Rightarrow> nat \<Rightarrow> nat \<Rightarrow> rgba" where
  "pixelAt img x y =
     (if x < width img \<and> y < height img \<and> y * width img + x < length (data img)
      then data img ! (y * width img + x) else transparent)"

text \<open>Rewriting every pixel of a bitmap from its column, its row and its old value.\<close>

definition paint :: "(nat \<Rightarrow> nat \<Rightarrow> rgba \<Rightarrow> rgba) \<Rightarrow> ImageData \<Rightarrow> ImageData" where
  "paint f img =
     img\<lparr>data := map (\<lambda>i. f (i mod width img) (i div width img) (data img ! i))
                     [0..<length (data img)]\<rparr>"

subsection \<open>Compositing\<close>

text \<open>
  The two Porter-Duff operators the editor selects through
  \<^verbatim>\<open>globalCompositeOperation\<close>.  With source \<open>s\<close>, backdrop \<open>b\<close> and alphas in the unit
  interval: \<open>\<alpha>o = \<alpha>s * Fa + \<alpha>b * Fb\<close> and \<open>co = \<alpha>s * Fa * Cs + \<alpha>b * Fb * Cb\<close>, where
  source-over has \<open>Fa = 1\<close>, \<open>Fb = 1 - \<alpha>s\<close> and source-in has \<open>Fa = \<alpha>b\<close>, \<open>Fb = 0\<close>.
  The result is stored back as 8-bit channels, rounded to nearest.
\<close>

datatype compositeOp = SourceOver | SourceIn

definition unit_of :: "nat \<Rightarrow> rat" where
  "unit_of v = of_nat v / 255"

definition quantize :: "rat \<Rightarrow> nat" where
  "quantize q = min 255 (nat (round (255 * q)))"

definition composite :: "compositeOp \<Rightarrow> rgba \<Rightarrow> rgba \<Rightarrow> rgba" where
  "composite op s b =
     (let as = unit_of (alpha s);
          ab = unit_of (alpha b);
          fa = (case op of SourceOver \<Rightarrow> 1 | SourceIn \<Rightarrow> ab);
          fb = (case op of SourceOver \<Rightarrow> 1 - as | SourceIn \<Rightarrow> 0);
          ao = as * fa + ab * fb;
          channel = (\<lambda>cs cb. if ao = 0 then 0
                     else quantize ((as * fa * unit_of cs + ab * fb * unit_of cb) / ao))
      in \<lparr>red = channel (red s) (red b),
          green = channel (green s) (green b),
          blue = channel (blue s) (blue b),
          alpha = quantize ao\<rparr>)"

section \<open>JavaScript numbers\<close>

text \<open>
  A JavaScript number is an IEEE 754 double: a finite value (a rational of the form
  \<open>m * 2 ^ e\<close>), negative zero, an infinity or NaN.  \<open>Num 0\<close> is positive zero.
\<close>

datatype number = Num rat | NegZero | Infinity | NegInfinity | NaN

fun bitLength :: "nat \<Rightarrow> nat" where
  "bitLength n = (if n = 0 then 0 else Suc (bitLength (n div 2)))"

declare bitLength.simps [simp del]

definition pow2 :: "int \<Rightarrow> rat" where
  "pow2 e = (if 0 \<le> e then 2 ^ nat e else 1 / 2 ^ nat (- e))"

text \<open>The binary exponent of a positive rational \<open>a\<close>: the \<open>e\<close> with \<open>2 ^ e \<le> a < 2 ^ (e + 1)\<close>.\<close>

definition binaryExponent :: "rat \<Rightarrow> int" where
  "binaryExponent a =
     (let d = int (bitLength (nat (fst (quotient_of a))))
                - int (bitLength (nat (snd (quotient_of a))))
      in if pow2 d \<le> a then d else d - 1)"

text \<open>Rounding a non-negative rational to the nearest integer, a tie to the even one.\<close>

definition roundHalfEven :: "rat \<Rightarrow> int" where
  "roundHalfEven x =
     (let f = \<lfloor>x\<rfloor>; r = x - of_int f
      in if r < 1 / 2 then f
         else if 1 / 2 < r then f + 1
         else if even f then f else f + 1)"

text \<open>
  The rounding of every arithmetic operation: to the nearest double, a tie to the
  even significand.  The significand has 53 bits; below \<open>2 ^ -1022\<close> the doubles are
  spaced \<open>2 ^ -1074\<close> apart (subnormals); a result of \<open>2 ^ 1024\<close> or more is an
  infinity; a non-zero value that rounds to zero keeps its sign.
\<close>

definition round64 :: "rat \<Rightarrow> number" where
  "round64 q =
     (if q = 0 then Num 0
      else (let a = \<bar>q\<bar>;
                quantum = pow2 (max (binaryExponent a) (- 1022) - 52);
                r = of_int (roundHalfEven (a / quantum)) * quantum
            in if pow2 1024 \<le> r then (if q < 0 then NegInfinity else Infinity)
               else if r = 0 then (if q < 0 then NegZero else Num 0)
               else Num (if q < 0 then - r else r)))"

definition isFinite :: "number \<Rightarrow> bool" where
  "isFinite x = (case x of Num q \<Rightarrow> True | NegZero \<Rightarrow> True | _ \<Rightarrow> False)"

definition isZero :: "number \<Rightarrow> bool" where
  "isZero x = (case x of Num q \<Rightarrow> q = 0 | NegZero \<Rightarrow> True | _ \<Rightarrow> False)"

text \<open>The sign bit of a number other than NaN.\<close>

definition isNegative :: "number \<Rightarrow> bool" where
  "isNegative x =
     (case x of Num q \<Rightarrow> q < 0 | NegZero \<Rightarrow> True | NegInfinity \<Rightarrow> True | _ \<Rightarrow> False)"

definition valueOf :: "number \<Rightarrow> rat" where
  "valueOf x = (case x of Num q \<Rightarrow> q | _ \<Rightarrow> 0)"

definition signedZero :: "bool \<Rightarrow> number" where
  "signedZero negative = (if negative then NegZero else Num 0)"

definition signedInfinity :: "bool \<Rightarrow> number" where
  "signedInfinity negative = (if negative then NegInfinity else Infinity)"

text \<open>\<^verbatim>\<open>a - b\<close>, \<^verbatim>\<open>a * b\<close> and \<^verbatim>\<open>a / b\<close> on numbers.\<close>

definition jsSub :: "number \<Rightarrow> number \<Rightarrow> number" where
  "jsSub a b =
     (if a = NaN \<or> b = NaN then NaN
      else if \<not> isFinite a then
             (if \<not> isFinite b \<and> isNegative a = isNegative b then NaN else a)
      else if \<not> isFinite b then signedInfinity (\<not> isNegative b)
      else if valueOf a - valueOf b = 0 then
             signedZero (isZero a \<and> isNegative a \<and> \<not> isNegative b)
      else round64 (valueOf a - valueOf b))"

definition jsMul :: "number \<Rightarrow> number \<Rightarrow> number" where
  "jsMul a b =
     (if a = NaN \<or> b = NaN then NaN
      else if \<not> isFinite a \<or> \<not> isFinite b then
             (if isZero a \<or> isZero b then NaN
              else signedInfinity (isNegative a \<noteq> isNegative b))
      else if isZero a \<or> isZero b then signedZero (isNegative a \<noteq> isNegative b)
      else round64 (valueOf a * valueOf b))"

definition jsDiv :: "number \<Rightarrow> number \<Rightarrow> number" where
  "jsDiv a b =
     (if a = NaN \<or> b = NaN then NaN
      else if \<not> isFinite a then
             (if \<not> isFinite b then NaN else signedInfinity (isNegative a \<noteq> isNegative b))
      else if \<not> isFinite b then signedZero (isNegative a \<noteq> isNegative b)
      else if isZero b then
             (if isZero a then NaN else signedInfinity (isNegative a \<noteq> isNegative b))
      else if isZero a then signedZero (isNegative a \<noteq> isNegative b)
      else round64 (valueOf a / valueOf b))"

text \<open>The number that reading \<^verbatim>\<open>canvas.width\<close> or \<^verbatim>\<open>canvas.height\<close> gives.\<close>

definition ofNat :: "nat \<Rightarrow> number" where
  "ofNat n = round64 (of_nat n)"

text \<open>Finite and greater than zero.\<close>

definition isPositive :: "number \<Rightarrow> bool" where
  "isPositive x = (case x of Num q \<Rightarrow> 0 < q | _ \<Rightarrow> False)"

text \<open>
  The browser's rasteriser behind \<^verbatim>\<open>ctx.stroke()\<close>: from the path, the line width
  and the stroke style (an 8-bit colour with a fractional alpha) it gives the new
  bitmap.
\<close>

type_synonym rasteriser =
  "(number \<times> number) list \<Rightarrow> number \<Rightarrow> nat \<times> nat \<times> nat \<times> rat \<Rightarrow> ImageData \<Rightarrow> ImageData"

section \<open>The 2D context\<close>

text \<open>
  A canvas is its bitmap together with the state of its 2D context that the editor
  uses: fill style, compositing operator, and the stroke state (the points of the
  current path, the stroke style and the line width).
\<close>

record canvas =
  bitmap :: ImageData
  fillStyle :: rgba
  globalCompositeOperation :: compositeOp
  path :: "(number \<times> number) list"
  strokeStyle :: "nat \<times> nat \<times> nat \<times> rat"
  lineWidth :: number

text \<open>
  Assigning \<^verbatim>\<open>canvas.width\<close> / \<^verbatim>\<open>canvas.height\<close> (as done on a newly created element,
  and on every image load) clears the bitmap and resets the context to its defaults.
\<close>

definition newCanvas :: "nat \<Rightarrow> nat \<Rightarrow> canvas" where
  "newCanvas w h =
     \<lparr>bitmap = blank w h, fillStyle = black, globalCompositeOperation = SourceOver,
      path = [], strokeStyle = (0, 0, 0, 1), lineWidth = Num 1\<rparr>"

text \<open>
  \<^verbatim>\<open>ctx.fillRect(x, y, w, h)\<close>: the source is the fill style inside the rectangle and
  nothing outside it, composited onto the bitmap with the current operator.
\<close>

definition fillRect :: "canvas \<Rightarrow> nat \<Rightarrow> nat \<Rightarrow> nat \<Rightarrow> nat \<Rightarrow> canvas" where
  "fillRect c x y w h =
     c\<lparr>bitmap := paint (\<lambda>px py old.
          composite (globalCompositeOperation c)
            (if x \<le> px \<and> px < x + w \<and> y \<le> py \<and> py < y + h then fillStyle c
             else transparent) old) (bitmap c)\<rparr>"

text \<open>\<^verbatim>\<open>ctx.drawImage(src, 0, 0)\<close> with another canvas's bitmap as the source.\<close>

definition drawImage :: "canvas \<Rightarrow> ImageData \<Rightarrow> canvas" where
  "drawImage c src =
     c\<lparr>bitmap := paint (\<lambda>px py old.
          composite (globalCompositeOperation c) (pixelAt src px py) old) (bitmap c)\<rparr>"

text \<open>\<^verbatim>\<open>ctx.clearRect(0, 0, canvas.width, canvas.height)\<close>.\<close>

definition clearRect :: "canvas \<Rightarrow> nat \<Rightarrow> nat \<Rightarrow> nat \<Rightarrow> nat \<Rightarrow> canvas" where
  "clearRect c x y w h =
     c\<lparr>bitmap := paint (\<lambda>px py old.
          if x \<le> px \<and> px < x + w \<and> y \<le> py \<and> py < y + h then transparent else old)
        (bitmap c)\<rparr>"

text \<open>\<^verbatim>\<open>ctx.getImageData(0, 0, canvas.width, canvas.height)\<close>: a copy of the bitmap.\<close>

definition getImageData :: "canvas \<Rightarrow> ImageData" where
  "getImageData c = bitmap c"

text \<open>
  \<^verbatim>\<open>ctx.putImageData(img, 0, 0)\<close>: the pixels of \<open>img\<close> replace those of the bitmap
  where the two overlap, without compositing.
\<close>

definition putImageData :: "canvas \<Rightarrow> ImageData \<Rightarrow> canvas" where
  "putImageData c img =
     c\<lparr>bitmap := paint (\<lambda>px py old.
          if px < width img \<and> py < height img \<and> py * width img + px < length (data img)
          then data img ! (py * width img + px) else old) (bitmap c)\<rparr>"

section \<open>Mask compositing\<close>

text \<open>
  The canvas that \<^verbatim>\<open>generateMaskImage\<close> builds from the drawing canvas, statement by
  statement, up to the call of \<^verbatim>\<open>toDataURL\<close>.
\<close>

definition maskCanvasOf :: "canvas \<Rightarrow> canvas" where
  "maskCanvasOf drawingCanvas =
     (let m0 = newCanvas (width (bitmap drawingCanvas)) (height (bitmap drawingCanvas));
          m1 = m0\<lparr>fillStyle := black\<rparr>;
          m2 = fillRect m1 0 0 (width (bitmap m1)) (height (bitmap m1));
          m3 = m2\<lparr>globalCompositeOperation := SourceOver\<rparr>;
          m4 = drawImage m3 (bitmap drawingCanvas);
          m5 = m4\<lparr>globalCompositeOperation := SourceIn\<rparr>;
          m6 = m5\<lparr>fillStyle := white\<rparr>
      in fillRect m6 0 0 (width (bitmap m6)) (height (bitmap m6)))"

text \<open>
  \<^verbatim>\<open>canvas.toDataURL('image/png')\<close>.  The PNG encoder is the browser's; it is a
  parameter \<open>png\<close> giving the base64 text of the encoded bitmap.  A bitmap with no
  pixels serialises as \<^verbatim>\<open>data:,\<close>.
\<close>

definition toDataURL :: "(ImageData \<Rightarrow> jsstring) \<Rightarrow> canvas \<Rightarrow> jsstring" where
  "toDataURL png c =
     (if width (bitmap c) = 0 \<or> height (bitmap c) = 0 then lit ''data:,''
      else lit ''data:image/png;base64,'' @ png (bitmap c))"

text \<open>
  \<^verbatim>\<open>s.split(',')[1]\<close>: the text between the first comma and the second (or the end).
  For a string without a comma JavaScript yields \<^verbatim>\<open>undefined\<close> where this function
  yields the empty text; \<^verbatim>\<open>toDataURL\<close> never returns such a string.
\<close>

definition isComma :: "16 word \<Rightarrow> bool" where
  "isComma c = (c = 0x2C)"

definition splitComma1 :: "jsstring \<Rightarrow> jsstring" where
  "splitComma1 s =
     takeWhile (\<lambda>c. \<not> isComma c) (drop 1 (dropWhile (\<lambda>c. \<not> isComma c) s))"

text \<open>
  The exceptions of the canvas API that the editor can meet: \<^verbatim>\<open>drawImage\<close> refuses a
  source canvas with a zero width or height, and \<^verbatim>\<open>getImageData\<close> a rectangle with a
  zero width or height.
\<close>

datatype domException = InvalidStateError | IndexSizeError

text \<open>
  \<^verbatim>\<open>generateMaskImage\<close>.  \<open>drawingCanvas\<close> is \<^verbatim>\<open>sourceDrawingCanvasRef.current\<close>
  (\<open>None\<close> while no canvas is mounted) and \<open>ctxAvailable\<close> tells whether
  \<^verbatim>\<open>maskCanvas.getContext('2d')\<close> returns a context.  The result is \<open>Inr\<close> of what the
  function returns, or \<open>Inl\<close> of the exception that \<^verbatim>\<open>maskCtx.drawImage\<close> throws.
\<close>

definition generateMaskImage ::
    "(ImageData \<Rightarrow> jsstring) \<Rightarrow> bool \<Rightarrow> canvas option \<Rightarrow>
     domException + SourceImage option" where
  "generateMaskImage png ctxAvailable drawingCanvas =
     (case drawingCanvas of
        None \<Rightarrow> Inr None
      | Some dc \<Rightarrow>
          if \<not> ctxAvailable then Inr None
          else if width (bitmap dc) = 0 \<or> height (bitmap dc) = 0 then Inl InvalidStateError
          else Inr (Some \<lparr>base64 = splitComma1 (toDataURL png (maskCanvasOf dc)),
                            mimeType = lit ''image/png''\<rparr>))"

section \<open>Data URLs\<close>

text \<open>
  \<^verbatim>\<open>dataUrl.match(/^data:(image\/[a-z]+);base64,(.+)$/)\<close>, piece by piece.  The
  pattern has no flags, so \<^verbatim>\<open>.\<close> is any code unit but a line terminator and \<^verbatim>\<open>$\<close>
  is the end of the string.  After the literal prefix the greedy \<^verbatim>\<open>[a-z]+\<close> takes the
  longest run of lower-case letters; giving a letter back never helps, since the
  next pattern character is \<^verbatim>\<open>;\<close>.  Both groups are non-empty when the match succeeds,
  which is what the truthiness test \<^verbatim>\<open>match[1] && match[2]\<close> asks.
\<close>

fun stripPrefix :: "'a list \<Rightarrow> 'a list \<Rightarrow> 'a list option" where
  "stripPrefix [] ys = Some ys"
| "stripPrefix (x # xs) [] = None"
| "stripPrefix (x # xs) (y # ys) = (if x = y then stripPrefix xs ys else None)"

definition isLower :: "16 word \<Rightarrow> bool" where
  "isLower c = (0x61 \<le> c \<and> c \<le> 0x7A)"

definition isLineTerminator :: "16 word \<Rightarrow> bool" where
  "isLineTerminator c = (c = 0x0A \<or> c = 0x0D \<or> c = 0x2028 \<or> c = 0x2029)"

definition dataUrlToSourceImage :: "jsstring \<Rightarrow> SourceImage option" where
  "dataUrlToSourceImage dataUrl =
     (case stripPrefix (lit ''data:'') dataUrl of
        None \<Rightarrow> None
      | Some r1 \<Rightarrow>
          (case stripPrefix (lit ''image/'') r1 of
             None \<Rightarrow> None
           | Some r2 \<Rightarrow>
               if takeWhile isLower r2 = [] then None
               else (case stripPrefix (lit '';base64,'') (dropWhile isLower r2) of
                       None \<Rightarrow> None
                     | Some r3 \<Rightarrow>
                         if r3 \<noteq> [] \<and> list_all (\<lambda>c. \<not> isLineTerminator c) r3
                         then Some \<lparr>base64 = r3,
                                    mimeType = lit ''image/'' @ takeWhile isLower r2\<rparr>
                         else None)))"

text \<open>The inverse direction, as the editor writes it: \<^verbatim>\<open>`data:${mimeType};base64,${base64}`\<close>.\<close>

definition dataUrlOf :: "SourceImage \<Rightarrow> jsstring" where
  "dataUrlOf img = lit ''data:'' @ mimeType img @ lit '';base64,'' @ base64 img"

section \<open>Editor state\<close>

text \<open>
  \<^verbatim>\<open>interface EditHistoryItem\<close>; the fields other than \<^verbatim>\<open>id\<close> and \<^verbatim>\<open>timestamp\<close> are the
  details that the editor hands to \<^verbatim>\<open>onEditComplete\<close>.  The fields \<^verbatim>\<open>prompt\<close>,
  \<^verbatim>\<open>referenceImage\<close>, \<^verbatim>\<open>resultImage\<close> and \<^verbatim>\<open>id\<close> are \<open>editPrompt\<close>, \<open>editReference\<close>,
  \<open>editResult\<close> and \<open>itemId\<close> here: the first three names are those of the editor's
  state, the last is the identity function of HOL.
\<close>

record EditDetails =
  sourceImage :: SourceImage
  maskImage :: SourceImage
  editPrompt :: jsstring
  editReference :: "SourceImage option"
  editResult :: jsstring

record EditHistoryItem = EditDetails +
  itemId :: int
  timestamp :: jsstring

text \<open>
  The state of the \<^verbatim>\<open>ImageEditor\<close> component: its \<^verbatim>\<open>useState\<close> slots and the canvases
  behind its refs (\<open>None\<close> while the element is not mounted).  \<open>containerWidth\<close> is
  \<^verbatim>\<open>sourceContainerRef.current\<close>, as its client width.
\<close>

record editor =
  image :: "SourceImage option"
  referenceImage :: "SourceImage option"
  prompt :: jsstring
  brushSize :: number
  resultImage :: "jsstring option"
  isLoading :: bool
  isDrawing :: bool
  isZoomed :: bool
  drawingHistory :: "ImageData list"
  sourceImageCanvas :: "canvas option"
  sourceDrawingCanvas :: "canvas option"
  containerWidth :: "nat option"

text \<open>
  The three messages \<^verbatim>\<open>handleGenerate\<close> shows with \<^verbatim>\<open>alert\<close>: image or description
  missing; the mask could not be created; the edit failed, try again.
\<close>

datatype alert = AlertMissingInput | AlertMaskFailed | AlertEditFailed

text \<open>The arguments of one call of \<^verbatim>\<open>editImage\<close>, and how the call ends.\<close>

record editRequest =
  reqSource :: SourceImage
  reqMask :: SourceImage
  reqPrompt :: jsstring
  reqReference :: "SourceImage option"

datatype editOutcome = Rejected | Resolved "jsstring option"

text \<open>
  The editor together with what surrounds it: the application's \<^verbatim>\<open>editHistory\<close> state
  (the list written to local storage), the alerts shown so far, the requests made to
  the edit service so far, and the exceptions that escaped a handler, oldest first.
\<close>

record world =
  editor :: editor
  editHistory :: "EditHistoryItem list"
  alerts :: "alert list"
  requests :: "editRequest list"
  uncaught :: "domException list"

section \<open>Canvas pair and drawing\<close>

text \<open>\<^verbatim>\<open>clearMask\<close>.\<close>

definition clearMask :: "editor \<Rightarrow> editor" where
  "clearMask st =
     (let st1 = (case sourceDrawingCanvas st of
                   None \<Rightarrow> st
                 | Some canvas \<Rightarrow>
                     st\<lparr>sourceDrawingCanvas :=
                          Some (clearRect canvas 0 0 (width (bitmap canvas))
                                  (height (bitmap canvas)))\<rparr>)
      in st1\<lparr>drawingHistory := []\<rparr>)"

text \<open>
  \<^verbatim>\<open>drawImageOnCanvas\<close> together with the \<^verbatim>\<open>onload\<close> callback it installs.  \<open>decode\<close> is
  the browser's image decoder: it yields the decoded picture at its natural size, or
  nothing when the data does not decode, in which case \<^verbatim>\<open>onload\<close> never runs.
\<close>

definition drawImageOnCanvas :: "(SourceImage \<Rightarrow> ImageData option) \<Rightarrow> editor \<Rightarrow> editor" where
  "drawImageOnCanvas decode st =
     (case image st of
        None \<Rightarrow> st
      | Some img \<Rightarrow>
          if sourceImageCanvas st = None \<or> sourceDrawingCanvas st = None
             \<or> containerWidth st = None then st
          else (case decode img of
                  None \<Rightarrow> st
                | Some imageEl \<Rightarrow>
                    clearMask
                      (st\<lparr>sourceImageCanvas :=
                            Some (drawImage (newCanvas (width imageEl) (height imageEl)) imageEl),
                          sourceDrawingCanvas :=
                            Some (newCanvas (width imageEl) (height imageEl))\<rparr>)))"

text \<open>\<^verbatim>\<open>canvas.getBoundingClientRect()\<close> and the pointer position of a mouse event.\<close>

record DOMRect =
  left :: number
  top :: number
  rectWidth :: number
  rectHeight :: number

record MouseEvent =
  clientX :: number
  clientY :: number

text \<open>\<^verbatim>\<open>getMousePos\<close>; \<open>rect\<close> is \<^verbatim>\<open>canvas.getBoundingClientRect()\<close>.\<close>

definition getMousePos :: "canvas \<Rightarrow> DOMRect \<Rightarrow> MouseEvent \<Rightarrow> number \<times> number" where
  "getMousePos canvas rect evt =
     (let scaleX = jsDiv (ofNat (width (bitmap canvas))) (rectWidth rect);
          scaleY = jsDiv (ofNat (height (bitmap canvas))) (rectHeight rect)
      in (jsMul (jsSub (clientX evt) (left rect)) scaleX,
          jsMul (jsSub (clientY evt) (top rect)) scaleY))"

text \<open>
  \<^verbatim>\<open>ctx.moveTo\<close> after \<^verbatim>\<open>ctx.beginPath\<close>, and \<^verbatim>\<open>ctx.lineTo\<close>.  Both return without
  effect when an argument is infinite or NaN.
\<close>

definition beginPathMoveTo :: "canvas \<Rightarrow> number \<times> number \<Rightarrow> canvas" where
  "beginPathMoveTo c pos =
     (if isFinite (fst pos) \<and> isFinite (snd pos) then c\<lparr>path := [pos]\<rparr> else c\<lparr>path := []\<rparr>)"

definition lineTo :: "canvas \<Rightarrow> number \<times> number \<Rightarrow> canvas" where
  "lineTo c pos =
     (if isFinite (fst pos) \<and> isFinite (snd pos) then c\<lparr>path := path c @ [pos]\<rparr> else c)"

text \<open>The \<^verbatim>\<open>lineWidth\<close> setter keeps the old value unless the new one is finite and positive.\<close>

definition setLineWidth :: "canvas \<Rightarrow> number \<Rightarrow> canvas" where
  "setLineWidth c v = (if isPositive v then c\<lparr>lineWidth := v\<rparr> else c)"

text \<open>\<^verbatim>\<open>startDrawing\<close>.\<close>

definition startDrawing :: "DOMRect \<Rightarrow> MouseEvent \<Rightarrow> editor \<Rightarrow> editor" where
  "startDrawing rect e st =
     (let st1 = st\<lparr>isDrawing := True\<rparr>
      in case sourceDrawingCanvas st1 of
           None \<Rightarrow> st1
         | Some canvas \<Rightarrow>
             st1\<lparr>sourceDrawingCanvas :=
                   Some (beginPathMoveTo canvas (getMousePos canvas rect e))\<rparr>)"

text \<open>
  \<^verbatim>\<open>brushSize * (canvas.width / rect.width)\<close>, the line width \<^verbatim>\<open>draw\<close> computes.
\<close>

definition nativeBrushSize :: "number \<Rightarrow> canvas \<Rightarrow> DOMRect \<Rightarrow> number" where
  "nativeBrushSize brush canvas rect =
     jsMul brush (jsDiv (ofNat (width (bitmap canvas))) (rectWidth rect))"

text \<open>
  \<^verbatim>\<open>draw\<close>.  \<open>stroke\<close> is the rasteriser, called by \<^verbatim>\<open>ctx.stroke()\<close> with the path, the
  line width and the stroke style of the context (round caps and joins are the only
  ones the editor uses).
\<close>

definition draw :: "rasteriser \<Rightarrow> DOMRect \<Rightarrow> MouseEvent \<Rightarrow> editor \<Rightarrow> editor" where
  "draw stroke rect e st =
     (if \<not> isDrawing st then st
      else case sourceDrawingCanvas st of
             None \<Rightarrow> st
           | Some canvas \<Rightarrow>
               (let c1 = lineTo canvas (getMousePos canvas rect e);
                    c2 = c1\<lparr>strokeStyle := (236, 72, 153, 7 / 10)\<rparr>;
                    c3 = setLineWidth c2 (nativeBrushSize (brushSize st) canvas rect);
                    c4 = c3\<lparr>bitmap := stroke (path c3) (lineWidth c3) (strokeStyle c3)
                                         (bitmap c3)\<rparr>
                in st\<lparr>sourceDrawingCanvas := Some c4\<rparr>))"

text \<open>
  \<^verbatim>\<open>stopDrawing\<close>: the snapshot of the whole drawing layer is pushed.  On a canvas
  with a zero width or height \<^verbatim>\<open>getImageData\<close> throws and the handler ends there, before
  any state is set.
\<close>

definition stopDrawing :: "editor \<Rightarrow> editor" where
  "stopDrawing st =
     (case sourceDrawingCanvas st of
        None \<Rightarrow> st\<lparr>isDrawing := False\<rparr>
      | Some canvas \<Rightarrow>
          if width (bitmap canvas) = 0 \<or> height (bitmap canvas) = 0 then st
          else st\<lparr>drawingHistory := drawingHistory st @ [getImageData canvas],
                  isDrawing := False\<rparr>)"

text \<open>\<^verbatim>\<open>handleUndo\<close>.  \<^verbatim>\<open>slice(0, -1)\<close> is \<open>butlast\<close>.\<close>

definition handleUndo :: "editor \<Rightarrow> editor" where
  "handleUndo st =
     (if length (drawingHistory st) = 0 then st
      else (let newHistory = butlast (drawingHistory st);
                st1 = st\<lparr>drawingHistory := newHistory\<rparr>
            in case sourceDrawingCanvas st1 of
                 None \<Rightarrow> st1
               | Some canvas \<Rightarrow>
                   (let c1 = clearRect canvas 0 0 (width (bitmap canvas))
                               (height (bitmap canvas));
                        c2 = (if length newHistory > 0
                              then putImageData c1 (newHistory ! (length newHistory - 1))
                              else c1)
                    in st1\<lparr>sourceDrawingCanvas := Some c2\<rparr>)))"

text \<open>\<^verbatim>\<open>handleZoomSave\<close>: the drawing made in the zoom dialog replaces the layer.\<close>

definition handleZoomSave :: "ImageData \<Rightarrow> editor \<Rightarrow> editor" where
  "handleZoomSave finalImageData st =
     (let st1 = (case sourceDrawingCanvas st of
                   None \<Rightarrow> st
                 | Some canvas \<Rightarrow>
                     st\<lparr>sourceDrawingCanvas :=
                          Some (putImageData
                                  (clearRect canvas 0 0 (width (bitmap canvas))
                                     (height (bitmap canvas)))
                                  finalImageData),
                        drawingHistory := drawingHistory st @ [finalImageData]\<rparr>)
      in st1\<lparr>isZoomed := False\<rparr>)"

section \<open>Edit session\<close>

text \<open>
  \<^verbatim>\<open>handleEditComplete\<close> of the application: \<open>now\<close> is \<^verbatim>\<open>Date.now()\<close> and \<open>time\<close> the
  formatted time of day.
\<close>

definition handleEditComplete ::
    "int \<Rightarrow> jsstring \<Rightarrow> EditDetails \<Rightarrow> EditHistoryItem list \<Rightarrow> EditHistoryItem list" where
  "handleEditComplete now time details prev =
     EditDetails.extend details \<lparr>itemId = now, timestamp = time\<rparr> # prev"

text \<open>
  \<^verbatim>\<open>handleGenerate\<close>, from the click to the end of its \<^verbatim>\<open>finally\<close> block.  \<open>editImage\<close>
  is the edit service: how the awaited call ends for a given request.  An empty
  string counts as no image, as in \<^verbatim>\<open>if(result)\<close>.  The mask is generated outside
  the \<^verbatim>\<open>try\<close> block, so an exception there escapes the handler.
\<close>

definition handleGenerate ::
    "(ImageData \<Rightarrow> jsstring) \<Rightarrow> bool \<Rightarrow> (editRequest \<Rightarrow> editOutcome) \<Rightarrow> int \<Rightarrow> jsstring \<Rightarrow>
     world \<Rightarrow> world" where
  "handleGenerate png ctxAvailable editImage now time w =
     (case image (editor w) of
        None \<Rightarrow> w\<lparr>alerts := alerts w @ [AlertMissingInput]\<rparr>
      | Some img \<Rightarrow>
          if prompt (editor w) = [] then w\<lparr>alerts := alerts w @ [AlertMissingInput]\<rparr>
          else (case generateMaskImage png ctxAvailable (sourceDrawingCanvas (editor w)) of
                  Inl e \<Rightarrow> w\<lparr>uncaught := uncaught w @ [e]\<rparr>
                | Inr None \<Rightarrow> w\<lparr>alerts := alerts w @ [AlertMaskFailed]\<rparr>
                | Inr (Some maskImg) \<Rightarrow>
                    (let req = \<lparr>reqSource = img, reqMask = maskImg,
                                reqPrompt = prompt (editor w),
                                reqReference = referenceImage (editor w)\<rparr>;
                         w1 = w\<lparr>editor := (editor w)\<lparr>isLoading := True, resultImage := None\<rparr>,
                                requests := requests w @ [req]\<rparr>;
                         w2 = (case editImage req of
                                 Resolved (Some result) \<Rightarrow>
                                   if result \<noteq> []
                                   then w1\<lparr>editor := (editor w1)\<lparr>resultImage := Some result\<rparr>,
                                           editHistory :=
                                             handleEditComplete now time
                                               \<lparr>sourceImage = img, maskImage = maskImg,
                                                editPrompt = prompt (editor w),
                                                editReference = referenceImage (editor w),
                                                editResult = result\<rparr>
                                               (editHistory w1)\<rparr>
                                   else w1\<lparr>alerts := alerts w1 @ [AlertEditFailed]\<rparr>
                               | _ \<Rightarrow> w1\<lparr>alerts := alerts w1 @ [AlertEditFailed]\<rparr>)
                     in w2\<lparr>editor := (editor w2)\<lparr>isLoading := False\<rparr>\<rparr>)))"

text \<open>\<^verbatim>\<open>handleContinueEditing\<close>.\<close>

definition handleContinueEditing :: "editor \<Rightarrow> editor" where
  "handleContinueEditing st =
     (case resultImage st of
        None \<Rightarrow> st
      | Some url \<Rightarrow>
          if url = [] then st
          else (case dataUrlToSourceImage url of
                  None \<Rightarrow> st
                | Some newSource \<Rightarrow>
                    st\<lparr>image := Some newSource, resultImage := None,
                       referenceImage := None\<rparr>))"

section \<open>Sequences of events\<close>

text \<open>
  What can happen to the drawing layer while one source image stays loaded: the mouse
  handlers of the drawing canvas, the undo and clear buttons, the brush slider, saving
  from the zoom dialog, and a window resize, which runs \<^verbatim>\<open>drawImageOnCanvas\<close> again.
\<close>

datatype drawingEvent =
    MouseDown DOMRect MouseEvent
  | MouseMove DOMRect MouseEvent
  | MouseUp
  | UndoClick
  | ClearClick
  | BrushChange number
  | ZoomSaved ImageData
  | WindowResize

fun drawingStep ::
    "rasteriser \<Rightarrow> (SourceImage \<Rightarrow> ImageData option) \<Rightarrow> drawingEvent \<Rightarrow> editor \<Rightarrow> editor"
    where
  "drawingStep stroke decode (MouseDown rect e) st = startDrawing rect e st"
| "drawingStep stroke decode (MouseMove rect e) st = draw stroke rect e st"
| "drawingStep stroke decode MouseUp st = stopDrawing st"
| "drawingStep stroke decode UndoClick st = handleUndo st"
| "drawingStep stroke decode ClearClick st = clearMask st"
| "drawingStep stroke decode (BrushChange v) st = st\<lparr>brushSize := v\<rparr>"
| "drawingStep stroke decode (ZoomSaved img) st = handleZoomSave img st"
| "drawingStep stroke decode WindowResize st = drawImageOnCanvas decode st"

definition runDrawing ::
    "rasteriser \<Rightarrow> (SourceImage \<Rightarrow> ImageData option) \<Rightarrow> drawingEvent list \<Rightarrow> editor \<Rightarrow>
     editor" where
  "runDrawing stroke decode evs st = fold (drawingStep stroke decode) evs st"

text \<open>
  A run of submissions.  Between two clicks on the generate button the user may do
  anything to the editor, so each submission comes with the editor state it finds,
  besides the outcome of its service call and the clock.
\<close>

record submission =
  subEditor :: editor
  subPng :: "ImageData \<Rightarrow> jsstring"
  subCtxAvailable :: bool
  subEditImage :: "editRequest \<Rightarrow> editOutcome"
  subNow :: int
  subTime :: jsstring

definition submit :: "submission \<Rightarrow> world \<Rightarrow> world" where
  "submit s w =
     handleGenerate (subPng s) (subCtxAvailable s) (subEditImage s) (subNow s) (subTime s)
       (w\<lparr>editor := subEditor s\<rparr>)"

definition submitAll :: "submission list \<Rightarrow> world \<Rightarrow> world" where
  "submitAll ss w = fold submit ss w"

section \<open>Predicates used in the statements\<close>

text \<open>A bitmap is well formed when it has one pixel per position.\<close>

definition wellFormed :: "ImageData \<Rightarrow> bool" where
  "wellFormed img = (length (data img) = width img * height img)"

text \<open>A snapshot fits a canvas when it is well formed and has the size of its bitmap.\<close>

definition fits :: "canvas \<Rightarrow> ImageData \<Rightarrow> bool" where
  "fits c img =
     (width img = width (bitmap c) \<and> height img = height (bitmap c) \<and> wellFormed img)"

text \<open>
  The drawing layer shows the most recent snapshot of the undo stack, or nothing when
  the stack is empty.
\<close>

definition layerMatchesHistory :: "editor \<Rightarrow> bool" where
  "layerMatchesHistory st =
     (case sourceDrawingCanvas st of
        None \<Rightarrow> True
      | Some c \<Rightarrow>
          bitmap c = (if drawingHistory st = []
                      then blank (width (bitmap c)) (height (bitmap c))
                      else last (drawingHistory st)))"

text \<open>The rasteriser paints into the bitmap it is given: it never resizes it.\<close>

definition keepsSize :: "rasteriser \<Rightarrow> bool" where
  "keepsSize stroke =
     (\<forall>p lw style b. width (stroke p lw style b) = width b \<and>
                      height (stroke p lw style b) = height b)"

definition layerSize :: "editor \<Rightarrow> (nat \<times> nat) option" where
  "layerSize st =
     map_option (\<lambda>c. (width (bitmap c), height (bitmap c))) (sourceDrawingCanvas st)"

text \<open>The two canvases and their container are mounted, as they are while an image is shown.\<close>

definition mounted :: "editor \<Rightarrow> bool" where
  "mounted st =
     (sourceImageCanvas st \<noteq> None \<and> sourceDrawingCanvas st \<noteq> None \<and>
      containerWidth st \<noteq> None)"

text \<open>The source image \<open>img\<close> is loaded: the drawing layer has the natural size of its picture.\<close>

definition loadedAs :: "SourceImage \<Rightarrow> ImageData \<Rightarrow> editor \<Rightarrow> bool" where
  "loadedAs img imageEl st =
     (image st = Some img \<and> mounted st \<and>
      layerSize st = Some (width imageEl, height imageEl))"

text \<open>
  The service call of \<^verbatim>\<open>handleGenerate\<close> fails when the promise rejects or resolves to
  no image: the two ways into its \<^verbatim>\<open>catch\<close> block.
\<close>

definition failed :: "editOutcome \<Rightarrow> bool" where
  "failed out = (case out of Resolved (Some result) \<Rightarrow> result = [] | _ \<Rightarrow> True)"

text \<open>A submission succeeds when \<^verbatim>\<open>handleGenerate\<close> reaches \<^verbatim>\<open>onEditComplete\<close>.\<close>

definition succeeds :: "submission \<Rightarrow> bool" where
  "succeeds s =
     (case image (subEditor s) of
        None \<Rightarrow> False
      | Some img \<Rightarrow>
          prompt (subEditor s) \<noteq> [] \<and>
          (case generateMaskImage (subPng s) (subCtxAvailable s)
                  (sourceDrawingCanvas (subEditor s)) of
             Inr (Some maskImg) \<Rightarrow>
               \<not> failed (subEditImage s \<lparr>reqSource = img, reqMask = maskImg,
                                          reqPrompt = prompt (subEditor s),
                                          reqReference = referenceImage (subEditor s)\<rparr>)
           | _ \<Rightarrow> False))"

text \<open>
  The shape of source image that the data-URL pattern accepts: the mime type is
  \<^verbatim>\<open>image/\<close> and then one or more lower-case ASCII letters, the base64 text is not empty
  and holds no line terminator.
\<close>

definition acceptedShape :: "SourceImage \<Rightarrow> bool" where
  "acceptedShape img =
     ((case stripPrefix (lit ''image/'') (mimeType img) of
         None \<Rightarrow> False
       | Some letters \<Rightarrow> letters \<noteq> [] \<and> list_all isLower letters) \<and>
      base64 img \<noteq> [] \<and> list_all (\<lambda>c. \<not> isLineTerminator c) (base64 img))"

text \<open>The rasteriser keeps the size of the bitmap and the number of its pixels.\<close>

definition keepsShape :: "rasteriser \<Rightarrow> bool" where
  "keepsShape stroke =
     (\<forall>p lw style b. width (stroke p lw style b) = width b \<and>
                      height (stroke p lw style b) = height b \<and>
                      length (data (stroke p lw style b)) = length (data b))"

text \<open>The drawing layer is well formed and every snapshot of the stack fits it.\<close>

definition historyFits :: "editor \<Rightarrow> bool" where
  "historyFits st =
     (case sourceDrawingCanvas st of
        None \<Rightarrow> True
      | Some c \<Rightarrow> wellFormed (bitmap c) \<and> list_all (fits c) (drawingHistory st))"

text \<open>
  The drawing handed back by the zoom dialog has the size of the loaded picture; the
  dialog sizes its own canvases from the same image.
\<close>

definition zoomDataFits :: "ImageData \<Rightarrow> drawingEvent \<Rightarrow> bool" where
  "zoomDataFits imageEl ev =
     (case ev of
        ZoomSaved img \<Rightarrow>
          width img = width imageEl \<and> height img = height imageEl \<and> wellFormed img
      | _ \<Rightarrow> True)"

text \<open>
  The state in which the layer and the stack agree: the stack fits the layer and,
  unless a stroke is in progress, the layer shows the top of the stack.
\<close>

definition settled :: "editor \<Rightarrow> bool" where
  "settled st = (historyFits st \<and> (\<not> isDrawing st \<longrightarrow> layerMatchesHistory st))"

text \<open>
  A rational that is a double: rounding it gives it back.  On such values the
  arithmetic of numbers is the exact one.
\<close>

definition representable :: "rat \<Rightarrow> bool" where
  "representable q = (round64 q = Num q)"

section \<open>Example inputs\<close>

text \<open>
  A drawing layer two pixels wide and one high: the left pixel carries the stroke
  colour \<^verbatim>\<open>rgba(236, 72, 153, 0.7)\<close>, the right pixel was never painted.
\<close>

definition strokeAndGap :: canvas where
  "strokeAndGap =
     (newCanvas 2 1)
       \<lparr>bitmap := \<lparr>width = 2, height = 1,
                   data = [\<lparr>red = 236, green = 72, blue = 153, alpha = 179\<rparr>, transparent]\<rparr>\<rparr>"

text \<open>The editor as it starts, and the application around it with no history yet.\<close>

definition initialEditor :: editor where
  "initialEditor =
     \<lparr>image = None, referenceImage = None, prompt = [], brushSize = Num 40,
      resultImage = None,
      isLoading = False, isDrawing = False, isZoomed = False, drawingHistory = [],
      sourceImageCanvas = None, sourceDrawingCanvas = None, containerWidth = None\<rparr>"

definition initialWorld :: world where
  "initialWorld =
     \<lparr>editor = initialEditor, editHistory = [], alerts = [], requests = [], uncaught = []\<rparr>"

definition pngImage :: SourceImage where
  "pngImage = \<lparr>base64 = lit ''QUJD'', mimeType = lit ''image/png''\<rparr>"

text \<open>
  An editor in the middle of a session: a source image and a prompt, one stroke on the
  drawing layer and its snapshot on the stack, and the result of an earlier edit on
  display.
\<close>

definition readyEditor :: editor where
  "readyEditor =
     initialEditor
       \<lparr>image := Some pngImage, prompt := lit ''add a pool'',
        resultImage := Some (lit ''data:image/png;base64,REVG''),
        drawingHistory := [bitmap strokeAndGap],
        sourceImageCanvas := Some (newCanvas 2 1),
        sourceDrawingCanvas := Some strokeAndGap,
        containerWidth := Some 500\<rparr>"

definition readyWorld :: world where
  "readyWorld = initialWorld\<lparr>editor := readyEditor\<rparr>"

text \<open>A stand-in for the PNG encoder, and the mask it yields.\<close>

definition pngStub :: "ImageData \<Rightarrow> jsstring" where
  "pngStub img = lit ''iVBORw0KGgo=''"

definition stubMask :: SourceImage where
  "stubMask = \<lparr>base64 = lit ''iVBORw0KGgo='', mimeType = lit ''image/png''\<rparr>"

text \<open>
  A decoder stub that yields a 3 by 2 picture, a rasteriser stub that paints nothing,
  and one stroke followed by an undo.
\<close>

definition decodeStub :: "SourceImage \<Rightarrow> ImageData option" where
  "decodeStub img = Some (blank 3 2)"

definition strokeStub :: rasteriser where
  "strokeStub p lw style b = b"

definition halfScale :: DOMRect where
  "halfScale =
     \<lparr>left = Num 10, top = Num 20, rectWidth = Num 256, rectHeight = Num 256\<rparr>"

definition strokeThenUndo :: "drawingEvent list" where
  "strokeThenUndo =
     [MouseDown halfScale \<lparr>clientX = Num 10, clientY = Num 148\<rparr>,
      MouseMove halfScale \<lparr>clientX = Num 266, clientY = Num 148\<rparr>,
      MouseUp, UndoClick]"



text \<open>A submission at clock reading \<open>t\<close> that the service answers with an image.\<close>

definition submissionAt :: "int \<Rightarrow> submission" where
  "submissionAt t =
     \<lparr>subEditor = readyEditor, subPng = pngStub, subCtxAvailable = True,
      subEditImage = (\<lambda>req. Resolved (Some (lit ''data:image/png;base64,R0hJ''))),
      subNow = t, subTime = lit ''10:30''\<rparr>"

text \<open>An editor whose result is a data URL with a mime type outside the pattern.\<close>

definition svgResult :: editor where
  "svgResult = readyEditor\<lparr>resultImage := Some (lit ''data:image/svg+xml;base64,QUJD'')\<rparr>"

text \<open>A source image whose base64 text is broken into two lines.\<close>

definition twoLines :: SourceImage where
  "twoLines = \<lparr>base64 = lit ''QUJD'' @ [0x0A] @ lit ''REVG'', mimeType = lit ''image/png''\<rparr>"

text \<open>
  A rasteriser for the examples: a pixel is painted, source-over with the stroke
  colour, when its centre lies within half the line width of a segment of the path;
  this is the shape of a stroke with round caps and round joins, without
  anti-aliasing.
\<close>

definition colourOf :: "nat \<times> nat \<times> nat \<times> rat \<Rightarrow> rgba" where
  "colourOf style =
     (case style of (r, g, b, a) \<Rightarrow> \<lparr>red = r, green = g, blue = b, alpha = quantize a\<rparr>)"

definition segmentDistance2 :: "rat \<times> rat \<Rightarrow> rat \<times> rat \<Rightarrow> rat \<times> rat \<Rightarrow> rat" where
  "segmentDistance2 p a b =
     (let dx = fst b - fst a; dy = snd b - snd a; len2 = dx * dx + dy * dy;
          t = (if len2 = 0 then 0
               else max 0 (min 1 (((fst p - fst a) * dx + (snd p - snd a) * dy) / len2)));
          ex = fst p - (fst a + t * dx); ey = snd p - (snd a + t * dy)
      in ex * ex + ey * ey)"

fun coveredBy :: "(rat \<times> rat) list \<Rightarrow> rat \<Rightarrow> rat \<times> rat \<Rightarrow> bool" where
  "coveredBy (a # b # rest) lw p =
     (segmentDistance2 p a b \<le> (lw / 2) * (lw / 2) \<or> coveredBy (b # rest) lw p)"
| "coveredBy pts lw p = False"

definition discStroke :: rasteriser where
  "discStroke pts lw style img =
     paint (\<lambda>px py old.
        if coveredBy (map (\<lambda>pt. (valueOf (fst pt), valueOf (snd pt))) pts) (valueOf lw)
             (of_nat px + 1 / 2, of_nat py + 1 / 2)
        then composite SourceOver (colourOf style) old else old) img"

text \<open>
  The editor with a 512 by 512 picture loaded and shown in a box of 256 by 256 CSS
  pixels (the box \<open>halfScale\<close>), the brush at its initial 40; a pointer press on the
  left edge of the box at mid height, and a pointer move to its right edge.
\<close>

definition at512 :: editor where
  "at512 =
     initialEditor
       \<lparr>image := Some pngImage,
        sourceImageCanvas := Some (newCanvas 512 512),
        sourceDrawingCanvas := Some (newCanvas 512 512),
        containerWidth := Some 256\<rparr>"

definition midLeft :: MouseEvent where
  "midLeft = \<lparr>clientX = Num 10, clientY = Num 148\<rparr>"

definition midRight :: MouseEvent where
  "midRight = \<lparr>clientX = Num 266, clientY = Num 148\<rparr>"

text \<open>The stroke colour \<^verbatim>\<open>rgba(236, 72, 153, 0.7)\<close> as a pixel.\<close>

definition strokeColour :: rgba where
  "strokeColour = \<lparr>red = 236, green = 72, blue = 153, alpha = 179\<rparr>"

text \<open>A box three CSS pixels wide, for a canvas ten pixels wide.\<close>

definition thirds :: DOMRect where
  "thirds = \<lparr>left = Num 0, top = Num 0, rectWidth = Num 3, rectHeight = Num 3\<rparr>"

section \<open>Properties of compositing\<close>

lemma quantize_one: "quantize 1 = 255"
  by (simp add: quantize_def)

lemma unit_of_255: "unit_of 255 = 1"
  by (simp add: unit_of_def)

lemma alpha_black: "alpha black = 255"
  by (simp add: black_def)

lemma composite_over_opaque_alpha:
  "alpha b = 255 \<Longrightarrow> alpha (composite SourceOver s b) = 255"
  by (simp add: composite_def Let_def unit_of_255 quantize_one)

lemma composite_in_white_opaque:
  "alpha b = 255 \<Longrightarrow> composite SourceIn white b = white"
  by (simp add: composite_def Let_def white_def unit_of_255 quantize_one)

lemma composite_over_black_blank:
  "composite SourceOver black transparent = black"
  by (simp add: composite_def Let_def black_def transparent_def unit_of_def quantize_def)

lemma length_data_paint: "length (data (paint f img)) = length (data img)"
  by (simp add: paint_def)

lemma width_paint: "width (paint f img) = width img"
  by (simp add: paint_def)

lemma height_paint: "height (paint f img) = height img"
  by (simp add: paint_def)

lemma nth_data_paint:
  "i < length (data img) \<Longrightarrow>
     data (paint f img) ! i = f (i mod width img) (i div width img) (data img ! i)"
  by (simp add: paint_def)

lemma in_rect:
  assumes "i < w * (h::nat)"
  shows "i mod w < w" and "i div w < h"
proof -
  from assms have "0 < w" by (cases w) simp_all
  then show "i mod w < w" by simp
  from assms show "i div w < h"
    by (simp add: less_mult_imp_div_less mult.commute)
qed

lemma width_blank: "width (blank w h) = w"
  by (simp add: blank_def)

lemma height_blank: "height (blank w h) = h"
  by (simp add: blank_def)

lemma size_newCanvas:
  "width (bitmap (newCanvas w h)) = w" "height (bitmap (newCanvas w h)) = h"
  by (simp_all add: newCanvas_def blank_def)

lemma size_clearRect:
  "width (bitmap (clearRect c x y w h)) = width (bitmap c)"
  "height (bitmap (clearRect c x y w h)) = height (bitmap c)"
  by (simp_all add: clearRect_def width_paint height_paint)

lemma size_putImageData:
  "width (bitmap (putImageData c img)) = width (bitmap c)"
  "height (bitmap (putImageData c img)) = height (bitmap c)"
  by (simp_all add: putImageData_def width_paint height_paint)

lemma fits_clearRect: "fits (clearRect c x y w h) img = fits c img"
  by (simp add: fits_def size_clearRect)

lemma wellFormed_clearRect:
  "wellFormed (bitmap (clearRect c x y w h)) = wellFormed (bitmap c)"
  by (simp add: wellFormed_def clearRect_def width_paint height_paint length_data_paint)

text \<open>Clearing the whole of a canvas leaves the blank bitmap of its size.\<close>

lemma bitmap_clearRect_full:
  assumes "wellFormed (bitmap c)"
  shows "bitmap (clearRect c 0 0 (width (bitmap c)) (height (bitmap c)))
           = blank (width (bitmap c)) (height (bitmap c))"
proof -
  have "data (bitmap (clearRect c 0 0 (width (bitmap c)) (height (bitmap c))))
          = replicate (width (bitmap c) * height (bitmap c)) transparent"
    using assms
    by (intro nth_equalityI)
       (simp_all add: clearRect_def wellFormed_def length_data_paint nth_data_paint in_rect)
  then show ?thesis
    by (simp add: blank_def clearRect_def width_paint height_paint ImageData.equality)
qed

text \<open>Putting a snapshot of the canvas's own size makes the bitmap equal to it.\<close>

lemma bitmap_putImageData_fits:
  assumes "wellFormed (bitmap c)" and "fits c img"
  shows "bitmap (putImageData c img) = img"
proof -
  have len: "length (data (bitmap c)) = length (data img)"
    using assms by (simp add: wellFormed_def fits_def)
  have "data (bitmap (putImageData c img)) = data img"
  proof (rule nth_equalityI)
    show "length (data (bitmap (putImageData c img))) = length (data img)"
      by (simp add: putImageData_def length_data_paint len)
  next
    fix i assume "i < length (data (bitmap (putImageData c img)))"
    then have i: "i < width (bitmap c) * height (bitmap c)"
      using assms by (simp add: putImageData_def length_data_paint wellFormed_def)
    then have "0 < width (bitmap c)" by (cases "width (bitmap c)") simp_all
    then have idx: "i div width (bitmap c) * width (bitmap c) + i mod width (bitmap c) = i"
      by simp
    from i assms show "data (bitmap (putImageData c img)) ! i = data img ! i"
      by (simp add: putImageData_def nth_data_paint wellFormed_def fits_def in_rect idx)
  qed
  then show ?thesis
    using assms
    by (simp add: putImageData_def width_paint height_paint fits_def ImageData.equality)
qed

section \<open>Properties of the mask\<close>

lemma maskCanvasOf_data_nth:
  assumes "i < width (bitmap dc) * height (bitmap dc)"
  shows "data (bitmap (maskCanvasOf dc)) ! i = white"
  using assms
  unfolding maskCanvasOf_def Let_def fillRect_def drawImage_def newCanvas_def
  by (simp add: nth_data_paint length_data_paint width_paint height_paint blank_def in_rect
      composite_in_white_opaque composite_over_opaque_alpha composite_over_black_blank
      alpha_black)

lemma maskCanvasOf_dims:
  "width (bitmap (maskCanvasOf dc)) = width (bitmap dc)"
  "height (bitmap (maskCanvasOf dc)) = height (bitmap dc)"
  "length (data (bitmap (maskCanvasOf dc))) = width (bitmap dc) * height (bitmap dc)"
  unfolding maskCanvasOf_def Let_def fillRect_def drawImage_def newCanvas_def
  by (simp_all add: length_data_paint width_paint height_paint blank_def)

text \<open>
  Whatever the drawing layer holds, the mask canvas ends up white everywhere: the
  black fill makes every pixel opaque, source-over keeps it opaque, and source-in
  with white then keeps white wherever the backdrop is opaque.
\<close>

lemma maskCanvasOf_bitmap:
  "bitmap (maskCanvasOf dc) =
     \<lparr>width = width (bitmap dc), height = height (bitmap dc),
      data = replicate (width (bitmap dc) * height (bitmap dc)) white\<rparr>"
proof -
  have "data (bitmap (maskCanvasOf dc)) =
          replicate (width (bitmap dc) * height (bitmap dc)) white"
    by (rule nth_equalityI) (simp_all add: maskCanvasOf_dims maskCanvasOf_data_nth)
  then show ?thesis
    by (simp add: maskCanvasOf_dims ImageData.equality)
qed

text \<open>The string \<^verbatim>\<open>toDataURL\<close> returns always has a comma.\<close>

lemma toDataURL_has_comma: "\<exists>c \<in> set (toDataURL png cv). isComma c"
  by (simp add: toDataURL_def lit_def isComma_def)

text \<open>For a canvas with pixels, the text after the comma begins with the encoder's output.\<close>

lemma splitComma1_toDataURL:
  "0 < width (bitmap cv) \<Longrightarrow> 0 < height (bitmap cv) \<Longrightarrow>
     splitComma1 (toDataURL png cv) = takeWhile (\<lambda>c. \<not> isComma c) (png (bitmap cv))"
  by (simp add: splitComma1_def toDataURL_def lit_def isComma_def)

lemma generateMaskImage_Some:
  "generateMaskImage png ctxAvailable drawingCanvas = Inr (Some m) \<longleftrightarrow>
     (\<exists>dc. drawingCanvas = Some dc \<and> ctxAvailable \<and>
           0 < width (bitmap dc) \<and> 0 < height (bitmap dc) \<and>
           m = \<lparr>base64 = splitComma1 (toDataURL png (maskCanvasOf dc)),
                 mimeType = lit ''image/png''\<rparr>)"
  by (auto simp add: generateMaskImage_def split: option.splits)

lemma generateMaskImage_None:
  "generateMaskImage png ctxAvailable drawingCanvas = Inr None \<longleftrightarrow>
     drawingCanvas = None \<or> \<not> ctxAvailable"
  by (auto simp add: generateMaskImage_def split: option.splits)

lemma generateMaskImage_stub:
  "generateMaskImage pngStub True (Some strokeAndGap) = Inr (Some stubMask)"
  by (simp add: generateMaskImage_def toDataURL_def splitComma1_def lit_def isComma_def
      maskCanvasOf_bitmap strokeAndGap_def pngStub_def stubMask_def)

text \<open>
  C1 (code defect): the claim wants the mask white exactly at the pixels a stroke
  touched and black at every other pixel.  On the layer \<open>strokeAndGap\<close> the right
  pixel is untouched, yet the mask canvas that \<^verbatim>\<open>generateMaskImage\<close> serialises is white
  there, not black.
\<close>

theorem mask_untouched_pixel_is_white:
  "pixelAt (bitmap strokeAndGap) 1 0 = transparent \<and>
   pixelAt (bitmap (maskCanvasOf strokeAndGap)) 1 0 = white \<and>
   pixelAt (bitmap (maskCanvasOf strokeAndGap)) 1 0 \<noteq> black"
  by (simp add: strokeAndGap_def pixelAt_def maskCanvasOf_bitmap white_def black_def)

text \<open>
  C2: whenever \<^verbatim>\<open>generateMaskImage\<close> returns a mask, the mask is the serialisation of a
  canvas each of whose pixels is exactly opaque black \<open>(0,0,0,255)\<close> or opaque white
  \<open>(255,255,255,255)\<close>, whatever alpha the pixels of the drawing layer have; the canvas
  has the width times the height of the drawing layer in pixels, and at least one.
\<close>

theorem mask_binary:
  assumes "generateMaskImage png ctxAvailable drawingCanvas = Inr (Some m)"
  shows "\<exists>dc. drawingCanvas = Some dc \<and>
              base64 m = splitComma1 (toDataURL png (maskCanvasOf dc)) \<and>
              (\<forall>p \<in> set (data (bitmap (maskCanvasOf dc))). p = black \<or> p = white) \<and>
              length (data (bitmap (maskCanvasOf dc)))
                = width (bitmap dc) * height (bitmap dc) \<and>
              0 < length (data (bitmap (maskCanvasOf dc)))"
  using assms by (auto simp add: generateMaskImage_Some maskCanvasOf_bitmap)

theorem mask_binary_witness:
  "generateMaskImage pngStub True (Some strokeAndGap) = Inr (Some stubMask) \<and>
   (\<exists>dc. Some strokeAndGap = Some dc \<and>
         base64 stubMask = splitComma1 (toDataURL pngStub (maskCanvasOf dc)) \<and>
         (\<forall>p \<in> set (data (bitmap (maskCanvasOf dc))). p = black \<or> p = white) \<and>
         length (data (bitmap (maskCanvasOf dc))) = width (bitmap dc) * height (bitmap dc) \<and>
         0 < length (data (bitmap (maskCanvasOf dc))))"
  using mask_binary[OF generateMaskImage_stub] generateMaskImage_stub by simp

section \<open>Properties of the drawing layer\<close>

lemma clearMask_fields:
  "image (clearMask st) = image st"
  "sourceImageCanvas (clearMask st) = sourceImageCanvas st"
  "containerWidth (clearMask st) = containerWidth st"
  "layerSize (clearMask st) = layerSize st"
  "(sourceDrawingCanvas (clearMask st) = None) = (sourceDrawingCanvas st = None)"
  "drawingHistory (clearMask st) = []"
  by (simp_all add: clearMask_def layerSize_def size_clearRect split: option.splits)

lemma drawImageOnCanvas_loaded:
  assumes "image st = Some img" and "mounted st" and "decode img = Some imageEl"
  shows "image (drawImageOnCanvas decode st) = Some img"
    and "mounted (drawImageOnCanvas decode st)"
    and "layerSize (drawImageOnCanvas decode st) = Some (width imageEl, height imageEl)"
    and "drawingHistory (drawImageOnCanvas decode st) = []"
  using assms
  by (auto simp add: drawImageOnCanvas_def mounted_def clearMask_fields layerSize_def
      clearMask_def size_clearRect size_newCanvas)

text \<open>No event of the drawing layer changes the size the layer got when the image loaded.\<close>

lemma drawingStep_loadedAs:
  assumes "loadedAs img imageEl st" and "decode img = Some imageEl" and "keepsSize stroke"
  shows "loadedAs img imageEl (drawingStep stroke decode ev st)"
proof (cases ev)
  case (MouseDown rect e)
  with assms(1) show ?thesis
    by (auto simp add: loadedAs_def mounted_def layerSize_def startDrawing_def
        beginPathMoveTo_def Let_def split: option.splits)
next
  case (MouseMove rect e)
  with assms(1,3) show ?thesis
    by (auto simp add: loadedAs_def mounted_def layerSize_def draw_def keepsSize_def
        lineTo_def setLineWidth_def Let_def split: option.splits)
next
  case MouseUp
  with assms(1) show ?thesis
    by (auto simp add: loadedAs_def mounted_def layerSize_def stopDrawing_def Let_def
        split: option.splits)
next
  case UndoClick
  with assms(1) show ?thesis
    by (auto simp add: loadedAs_def mounted_def layerSize_def handleUndo_def Let_def
        size_clearRect size_putImageData split: option.splits)
next
  case ClearClick
  with assms(1) show ?thesis
    by (simp add: loadedAs_def mounted_def clearMask_fields)
next
  case (BrushChange v)
  with assms(1) show ?thesis
    by (simp add: loadedAs_def mounted_def layerSize_def)
next
  case (ZoomSaved img')
  with assms(1) show ?thesis
    by (auto simp add: loadedAs_def mounted_def layerSize_def handleZoomSave_def Let_def
        size_clearRect size_putImageData split: option.splits)
next
  case WindowResize
  with assms(1,2) drawImageOnCanvas_loaded[of st img decode imageEl] show ?thesis
    by (simp add: loadedAs_def)
qed

lemma runDrawing_loadedAs:
  assumes "decode img = Some imageEl" and "keepsSize stroke"
  shows "loadedAs img imageEl st \<Longrightarrow> loadedAs img imageEl (runDrawing stroke decode evs st)"
proof (induction evs arbitrary: st)
  case Nil
  then show ?case by (simp add: runDrawing_def)
next
  case (Cons ev evs)
  have "loadedAs img imageEl (drawingStep stroke decode ev st)"
    using Cons.prems assms
    by (simp add: drawingStep_loadedAs[where decode = decode and stroke = stroke])
  from Cons.IH[OF this] show ?case by (simp add: runDrawing_def)
qed

text \<open>
  C7: once a source image has loaded into the mounted canvases, and after any run of
  events on the drawing layer, the mask canvas that \<^verbatim>\<open>generateMaskImage\<close> builds has
  the natural width and height of the decoded source image; when these are not zero
  the function returns the serialisation of that canvas.
\<close>

theorem mask_dimensions:
  assumes "image st = Some img" and "mounted st" and "decode img = Some imageEl"
    and "keepsSize stroke"
  shows "\<exists>dc. sourceDrawingCanvas (runDrawing stroke decode evs (drawImageOnCanvas decode st))
                = Some dc \<and>
              width (bitmap (maskCanvasOf dc)) = width imageEl \<and>
              height (bitmap (maskCanvasOf dc)) = height imageEl \<and>
              (0 < width imageEl \<and> 0 < height imageEl \<longrightarrow>
                 generateMaskImage png True (Some dc)
                   = Inr (Some \<lparr>base64 = splitComma1 (toDataURL png (maskCanvasOf dc)),
                                 mimeType = lit ''image/png''\<rparr>))"
proof -
  let ?st = "runDrawing stroke decode evs (drawImageOnCanvas decode st)"
  have "loadedAs img imageEl (drawImageOnCanvas decode st)"
    using assms(1-3) drawImageOnCanvas_loaded[where decode = decode and st = st]
    by (simp add: loadedAs_def)
  then have "loadedAs img imageEl ?st"
    using assms(3,4) by (simp add: runDrawing_loadedAs[where decode = decode])
  then obtain dc where dc: "sourceDrawingCanvas ?st = Some dc"
    "width (bitmap dc) = width imageEl" "height (bitmap dc) = height imageEl"
    by (auto simp add: loadedAs_def layerSize_def)
  then show ?thesis by (simp add: maskCanvasOf_dims generateMaskImage_def)
qed

theorem mask_dimensions_witness:
  "image readyEditor = Some pngImage \<and> mounted readyEditor \<and>
   decodeStub pngImage = Some (blank 3 2) \<and> keepsSize strokeStub \<and>
   (\<exists>dc. sourceDrawingCanvas
            (runDrawing strokeStub decodeStub strokeThenUndo
               (drawImageOnCanvas decodeStub readyEditor)) = Some dc \<and>
         width (bitmap (maskCanvasOf dc)) = 3 \<and>
         height (bitmap (maskCanvasOf dc)) = 2 \<and>
         generateMaskImage pngStub True (Some dc)
           = Inr (Some \<lparr>base64 = splitComma1 (toDataURL pngStub (maskCanvasOf dc)),
                         mimeType = lit ''image/png''\<rparr>))"
proof -
  have h1: "image readyEditor = Some pngImage"
    by (simp add: readyEditor_def initialEditor_def)
  have h2: "mounted readyEditor"
    by (simp add: mounted_def readyEditor_def initialEditor_def)
  have h3: "decodeStub pngImage = Some (blank 3 2)"
    by (simp add: decodeStub_def)
  have h4: "keepsSize strokeStub"
    by (simp add: keepsSize_def strokeStub_def)
  from mask_dimensions[where decode = decodeStub and stroke = strokeStub
      and evs = strokeThenUndo and png = pngStub, OF h1 h2 h3 h4] h1 h2 h3 h4
  show ?thesis by (simp add: width_blank height_blank)
qed

section \<open>Properties of the undo stack\<close>

lemma keepsShape_keepsSize: "keepsShape stroke \<Longrightarrow> keepsSize stroke"
  by (simp add: keepsShape_def keepsSize_def)

lemma wellFormed_putImageData:
  "wellFormed (bitmap (putImageData c img)) = wellFormed (bitmap c)"
  by (simp add: wellFormed_def putImageData_def width_paint height_paint length_data_paint)

lemma fits_putImageData: "fits (putImageData c img) x = fits c x"
  by (simp add: fits_def size_putImageData)

lemma wellFormed_newCanvas: "wellFormed (bitmap (newCanvas w h))"
  by (simp add: wellFormed_def newCanvas_def blank_def)

lemma handleUndo_repaints:
  assumes ne: "drawingHistory st \<noteq> []"
    and c: "sourceDrawingCanvas st = Some c"
    and wf: "wellFormed (bitmap c)"
    and fit: "\<forall>img \<in> set (drawingHistory st). fits c img"
  shows "\<exists>c'. sourceDrawingCanvas (handleUndo st) = Some c' \<and>
              width (bitmap c') = width (bitmap c) \<and> height (bitmap c') = height (bitmap c) \<and>
              bitmap c' = (if butlast (drawingHistory st) = []
                           then blank (width (bitmap c)) (height (bitmap c))
                           else last (butlast (drawingHistory st)))"
proof -
  let ?new = "butlast (drawingHistory st)"
  let ?c1 = "clearRect c 0 0 (width (bitmap c)) (height (bitmap c))"
  let ?c2 = "if ?new = [] then ?c1 else putImageData ?c1 (last ?new)"
  have st': "sourceDrawingCanvas (handleUndo st) = Some ?c2"
    using ne c by (simp add: handleUndo_def Let_def last_conv_nth)
  have bm: "bitmap ?c2 = (if ?new = [] then blank (width (bitmap c)) (height (bitmap c))
                          else last ?new)"
  proof (cases "?new = []")
    case True
    with wf show ?thesis by (simp add: bitmap_clearRect_full)
  next
    case False
    then have "last ?new \<in> set (drawingHistory st)"
      by (meson in_set_butlastD last_in_set)
    with fit have "fits ?c1 (last ?new)" by (simp add: fits_clearRect)
    moreover from wf have "wellFormed (bitmap ?c1)" by (simp add: wellFormed_clearRect)
    ultimately show ?thesis using False by (simp add: bitmap_putImageData_fits)
  qed
  have dims: "width (bitmap ?c2) = width (bitmap c)" "height (bitmap ?c2) = height (bitmap c)"
    by (simp_all add: size_putImageData size_clearRect)
  from st' bm dims show ?thesis by blast
qed

lemma handleUndo_matches:
  assumes "drawingHistory st \<noteq> []" and "historyFits st"
  shows "layerMatchesHistory (handleUndo st)"
proof (cases "sourceDrawingCanvas st")
  case None
  with assms(1) show ?thesis
    by (simp add: layerMatchesHistory_def handleUndo_def Let_def)
next
  case (Some c)
  with assms(2) have wf: "wellFormed (bitmap c)"
    and fit: "\<forall>img \<in> set (drawingHistory st). fits c img"
    by (simp_all add: historyFits_def list_all_iff)
  from handleUndo_repaints[OF assms(1) Some wf fit] obtain c' where
    c': "sourceDrawingCanvas (handleUndo st) = Some c'"
      "width (bitmap c') = width (bitmap c)" "height (bitmap c') = height (bitmap c)"
      "bitmap c' = (if butlast (drawingHistory st) = []
                    then blank (width (bitmap c)) (height (bitmap c))
                    else last (butlast (drawingHistory st)))"
    by blast
  have hist: "drawingHistory (handleUndo st) = butlast (drawingHistory st)"
    using assms(1) by (simp add: handleUndo_def Let_def split: option.splits)
  show ?thesis
    unfolding layerMatchesHistory_def c'(1) hist option.case c'(2,3)
    using c'(4) by simp
qed

lemma handleUndo_historyFits:
  assumes "historyFits st"
  shows "historyFits (handleUndo st)"
proof (cases "drawingHistory st = []")
  case True
  with assms show ?thesis by (simp add: handleUndo_def)
next
  case False
  show ?thesis
  proof (cases "sourceDrawingCanvas st")
    case None
    with False show ?thesis by (simp add: historyFits_def handleUndo_def Let_def)
  next
    case (Some c)
    with assms have wf: "wellFormed (bitmap c)"
      and fit: "\<forall>img \<in> set (drawingHistory st). fits c img"
      by (simp_all add: historyFits_def list_all_iff)
    from fit have "\<forall>img \<in> set (butlast (drawingHistory st)). fits c img"
      by (meson in_set_butlastD)
    with False Some wf show ?thesis
      by (simp add: historyFits_def handleUndo_def Let_def list_all_iff
          wellFormed_putImageData wellFormed_clearRect fits_putImageData fits_clearRect)
  qed
qed

lemma wellFormed_blank: "wellFormed (blank w h)"
  by (simp add: wellFormed_def blank_def)

lemma fits_same_bitmap: "bitmap c' = bitmap c \<Longrightarrow> fits c' = fits c"
  by (simp add: fits_def fun_eq_iff)

lemma fits_same_size:
  "width (bitmap c') = width (bitmap c) \<Longrightarrow> height (bitmap c') = height (bitmap c) \<Longrightarrow>
     fits c' = fits c"
  by (simp add: fits_def fun_eq_iff)

lemma clearMask_settled:
  assumes "\<forall>c. sourceDrawingCanvas st = Some c \<longrightarrow> wellFormed (bitmap c)"
  shows "settled (clearMask st)"
  using assms
  by (auto simp add: settled_def historyFits_def layerMatchesHistory_def clearMask_def
      bitmap_clearRect_full wellFormed_blank width_blank height_blank split: option.splits)

lemma drawImageOnCanvas_settled:
  assumes "settled st"
  shows "settled (drawImageOnCanvas decode st)"
proof -
  have "settled (clearMask (st\<lparr>sourceImageCanvas := a,
                                sourceDrawingCanvas := Some (newCanvas w h)\<rparr>))" for a w h
    by (rule clearMask_settled) (simp add: wellFormed_newCanvas)
  with assms show ?thesis
    by (simp add: drawImageOnCanvas_def split: option.splits)
qed

lemma startDrawing_settled:
  assumes "settled st"
  shows "settled (startDrawing rect e st)"
proof (cases "sourceDrawingCanvas st")
  case None
  with assms show ?thesis
    by (simp add: settled_def historyFits_def startDrawing_def Let_def)
next
  case (Some c)
  have b: "bitmap (beginPathMoveTo c pos) = bitmap c" for pos
    by (simp add: beginPathMoveTo_def)
  from assms Some show ?thesis
    by (simp add: settled_def historyFits_def startDrawing_def Let_def b
        fits_same_bitmap[OF b])
qed

lemma draw_settled:
  assumes "settled st" and "keepsShape stroke"
  shows "settled (draw stroke rect e st)"
proof (cases "isDrawing st")
  case False
  with assms(1) show ?thesis by (simp add: draw_def)
next
  case True
  show ?thesis
  proof (cases "sourceDrawingCanvas st")
    case None
    with assms(1) True show ?thesis by (simp add: draw_def)
  next
    case (Some c)
    let ?c3 = "setLineWidth ((lineTo c (getMousePos c rect e))
                    \<lparr>strokeStyle := (236, 72, 153, 7 / 10)\<rparr>)
                 (nativeBrushSize (brushSize st) c rect)"
    have b: "bitmap ?c3 = bitmap c"
      by (simp add: setLineWidth_def lineTo_def)
    from assms(2) have k:
      "width (stroke p lw style (bitmap c)) = width (bitmap c)"
      "height (stroke p lw style (bitmap c)) = height (bitmap c)"
      "length (data (stroke p lw style (bitmap c))) = length (data (bitmap c))" for p lw style
      using assms(2) unfolding keepsShape_def by blast+
    from assms(1) Some have "wellFormed (bitmap c)" "list_all (fits c) (drawingHistory st)"
      by (simp_all add: settled_def historyFits_def)
    moreover have "fits (?c3\<lparr>bitmap := stroke p lw style (bitmap c)\<rparr>) = fits c" for p lw style
      by (rule fits_same_size) (simp_all add: k)
    ultimately show ?thesis
      using True Some b k
      by (simp add: settled_def historyFits_def draw_def Let_def wellFormed_def)
  qed
qed

lemma stopDrawing_settled: "settled st \<Longrightarrow> settled (stopDrawing st)"
  by (auto simp add: settled_def historyFits_def layerMatchesHistory_def stopDrawing_def
      getImageData_def fits_def split: option.splits)

lemma handleUndo_settled:
  assumes "settled st"
  shows "settled (handleUndo st)"
proof (cases "drawingHistory st = []")
  case True
  with assms show ?thesis by (simp add: handleUndo_def)
next
  case False
  from assms have "historyFits st" by (simp add: settled_def)
  from handleUndo_historyFits[OF this] handleUndo_matches[OF False this]
  show ?thesis by (simp add: settled_def)
qed

lemma handleZoomSave_settled:
  assumes "settled st" and "\<forall>c. sourceDrawingCanvas st = Some c \<longrightarrow> fits c img"
  shows "settled (handleZoomSave img st)"
proof (cases "sourceDrawingCanvas st")
  case None
  with assms(1) show ?thesis
    by (simp add: settled_def historyFits_def layerMatchesHistory_def handleZoomSave_def)
next
  case (Some c)
  let ?c' = "putImageData (clearRect c 0 0 (width (bitmap c)) (height (bitmap c))) img"
  from assms Some have wf: "wellFormed (bitmap c)" and fit: "fits c img"
    and all: "list_all (fits c) (drawingHistory st)"
    by (simp_all add: settled_def historyFits_def)
  from wf fit have bm: "bitmap ?c' = img"
    by (simp add: bitmap_putImageData_fits wellFormed_clearRect fits_clearRect)
  have f: "fits ?c' = fits c"
    by (rule fits_same_size) (simp_all add: size_putImageData size_clearRect)
  from wf have wf': "wellFormed (bitmap ?c')"
    by (simp add: wellFormed_putImageData wellFormed_clearRect)
  from Some wf' all fit bm show ?thesis
    by (simp add: settled_def historyFits_def layerMatchesHistory_def handleZoomSave_def
        Let_def f)
qed

lemma drawingStep_settled:
  assumes "settled st" and "loadedAs img imageEl st" and "keepsShape stroke"
    and "zoomDataFits imageEl ev"
  shows "settled (drawingStep stroke decode ev st)"
proof (cases ev)
  case (MouseDown rect e)
  with assms(1) show ?thesis by (simp add: startDrawing_settled)
next
  case (MouseMove rect e)
  with assms(1,3) show ?thesis by (simp add: draw_settled)
next
  case MouseUp
  with assms(1) show ?thesis by (simp add: stopDrawing_settled)
next
  case UndoClick
  with assms(1) show ?thesis by (simp add: handleUndo_settled)
next
  case ClearClick
  from assms(1) have "\<forall>c. sourceDrawingCanvas st = Some c \<longrightarrow> wellFormed (bitmap c)"
    by (auto simp add: settled_def historyFits_def)
  with ClearClick show ?thesis by (simp add: clearMask_settled)
next
  case (BrushChange v)
  with assms(1) show ?thesis
    by (auto simp add: settled_def historyFits_def layerMatchesHistory_def
        split: option.splits)
next
  case (ZoomSaved z)
  from assms(2,4) ZoomSaved have "\<forall>c. sourceDrawingCanvas st = Some c \<longrightarrow> fits c z"
    by (auto simp add: loadedAs_def layerSize_def zoomDataFits_def fits_def)
  with assms(1) ZoomSaved show ?thesis by (simp add: handleZoomSave_settled)
next
  case WindowResize
  with assms(1) show ?thesis by (simp add: drawImageOnCanvas_settled)
qed

lemma runDrawing_settled:
  assumes "decode img = Some imageEl" and "keepsShape stroke"
    and "list_all (zoomDataFits imageEl) evs"
  shows "loadedAs img imageEl st \<Longrightarrow> settled st \<Longrightarrow>
           settled (runDrawing stroke decode evs st)"
  using assms(3)
proof (induction evs arbitrary: st)
  case Nil
  then show ?case by (simp add: runDrawing_def)
next
  case (Cons ev evs)
  from Cons.prems have ev: "zoomDataFits imageEl ev" and evs: "list_all (zoomDataFits imageEl) evs"
    by simp_all
  have l: "loadedAs img imageEl (drawingStep stroke decode ev st)"
    using Cons.prems(1) assms(1,2)
    by (simp add: drawingStep_loadedAs[where decode = decode and stroke = stroke]
        keepsShape_keepsSize)
  have s: "settled (drawingStep stroke decode ev st)"
    using Cons.prems(1,2) assms(2) ev
    by (simp add: drawingStep_settled[where img = img and imageEl = imageEl])
  from Cons.IH[OF l s evs] show ?case by (simp add: runDrawing_def)
qed

lemma loaded_settled:
  assumes "image st = Some img" and "mounted st" and "decode img = Some imageEl"
  shows "settled (drawImageOnCanvas decode st)"
proof -
  have "settled (clearMask (st\<lparr>sourceImageCanvas := a,
                                sourceDrawingCanvas := Some (newCanvas w h)\<rparr>))" for a w h
    by (rule clearMask_settled) (simp add: wellFormed_newCanvas)
  with assms show ?thesis
    by (auto simp add: drawImageOnCanvas_def mounted_def)
qed

text \<open>
  From the moment a source image has loaded, and through any run of events on the
  drawing layer, the stack fits the layer, and the layer shows the top of the stack
  (or nothing, when the stack is empty) whenever no stroke is in progress.
\<close>

lemma layer_agrees_between_strokes:
  assumes "image st = Some img" and "mounted st" and "decode img = Some imageEl"
    and "keepsShape stroke" and "list_all (zoomDataFits imageEl) evs"
  shows "settled (runDrawing stroke decode evs (drawImageOnCanvas decode st))"
proof -
  have l: "loadedAs img imageEl (drawImageOnCanvas decode st)"
    using assms(1-3) drawImageOnCanvas_loaded[where decode = decode and st = st]
    by (simp add: loadedAs_def)
  have s: "settled (drawImageOnCanvas decode st)"
    using assms(1-3) by (simp add: loaded_settled[where decode = decode])
  from l s assms(3-5) show ?thesis
    by (simp add: runDrawing_settled[where decode = decode and img = img])
qed



section \<open>Properties of number rounding\<close>

text \<open>
  Evaluating \<open>round64\<close> at given values, in steps: the bit lengths, the spacing of the
  doubles around the value, then the rounding itself.
\<close>

lemma bitLength_numeral:
  "bitLength (numeral (Num.Bit0 n)) = Suc (bitLength (numeral n))"
  "bitLength (numeral (Num.Bit1 n)) = Suc (bitLength (numeral n))"
  "bitLength (Suc 0) = 1" "bitLength 0 = 0"
  by (subst bitLength.simps, simp add: numeral_Bit0_div_2 numeral_Bit1_div_2 bitLength.simps[of 0])+

lemma round64_quantum:
  assumes "q \<noteq> 0" and "pow2 (max (binaryExponent \<bar>q\<bar>) (- 1022) - 52) = k"
  shows "round64 q =
           (if pow2 1024 \<le> of_int (roundHalfEven (\<bar>q\<bar> / k)) * k
            then (if q < 0 then NegInfinity else Infinity)
            else if of_int (roundHalfEven (\<bar>q\<bar> / k)) * k = 0
                 then (if q < 0 then NegZero else Num 0)
                 else Num (if q < 0 then - (of_int (roundHalfEven (\<bar>q\<bar> / k)) * k)
                           else of_int (roundHalfEven (\<bar>q\<bar> / k)) * k))"
  unfolding round64_def Let_def assms(2)
  using assms(1) by (simp only: if_False)

lemma quantum_2: "pow2 (max (binaryExponent \<bar>2\<bar>) (- 1022) - 52) = 1 / 2 ^ 51"
  by (simp add: binaryExponent_def pow2_def Let_def bitLength_numeral)
lemma quantum_80: "pow2 (max (binaryExponent \<bar>80\<bar>) (- 1022) - 52) = 1 / 2 ^ 46"
  by (simp add: binaryExponent_def pow2_def Let_def bitLength_numeral)
lemma quantum_128: "pow2 (max (binaryExponent \<bar>128\<bar>) (- 1022) - 52) = 1 / 2 ^ 45"
  by (simp add: binaryExponent_def pow2_def Let_def bitLength_numeral)
lemma quantum_256: "pow2 (max (binaryExponent \<bar>256\<bar>) (- 1022) - 52) = 1 / 2 ^ 44"
  by (simp add: binaryExponent_def pow2_def Let_def bitLength_numeral)
lemma quantum_512: "pow2 (max (binaryExponent \<bar>512\<bar>) (- 1022) - 52) = 1 / 2 ^ 43"
  by (simp add: binaryExponent_def pow2_def Let_def bitLength_numeral)

lemma representable_2: "representable 2"
  unfolding representable_def
  by (subst round64_quantum[OF _ quantum_2]) (simp_all add: roundHalfEven_def Let_def pow2_def)
lemma representable_80: "representable 80"
  unfolding representable_def
  by (subst round64_quantum[OF _ quantum_80]) (simp_all add: roundHalfEven_def Let_def pow2_def)
lemma representable_128: "representable 128"
  unfolding representable_def
  by (subst round64_quantum[OF _ quantum_128]) (simp_all add: roundHalfEven_def Let_def pow2_def)
lemma representable_256: "representable 256"
  unfolding representable_def
  by (subst round64_quantum[OF _ quantum_256]) (simp_all add: roundHalfEven_def Let_def pow2_def)
lemma representable_512: "representable 512"
  unfolding representable_def
  by (subst round64_quantum[OF _ quantum_512]) (simp_all add: roundHalfEven_def Let_def pow2_def)

lemma quantum_10: "pow2 (max (binaryExponent \<bar>10\<bar>) (- 1022) - 52) = 1 / 2 ^ 49"
  by (simp add: binaryExponent_def pow2_def Let_def bitLength_numeral)

lemma representable_10: "representable 10"
  unfolding representable_def
  by (subst round64_quantum[OF _ quantum_10]) (simp_all add: roundHalfEven_def Let_def pow2_def)

text \<open>
  Ten thirds is not a double: \<^verbatim>\<open>10 / 3\<close> is \<^verbatim>\<open>3.3333333333333335\<close>, and forty times that
  is \<^verbatim>\<open>133.33333333333334\<close>.
\<close>

lemma fl: "\<lfloor>(22517998136852480::rat) / 3\<rfloor> = 7505999378950826"
  by (simp add: floor_eq_iff)

lemma q103: "quotient_of (10/3) = (10, 3)"
proof -
  have "(10/3 :: rat) = Fract 10 3" by (simp add: Fract_of_int_quotient)
  moreover have "coprime (10::int) 3"
    using coprime_mod_left_iff[of 3 "10::int"] by simp
  then have "quotient_of (Fract 10 3) = (10, 3)"
    by (simp add: quotient_of_Fract normalize_stable)
  ultimately show ?thesis by (simp only:)
qed

lemma quantum_10_3: "pow2 (max (binaryExponent \<bar>10 / 3\<bar>) (- 1022) - 52) = 1 / 2 ^ 51"
  by (simp add: binaryExponent_def pow2_def Let_def bitLength_numeral q103)

lemma round64_10_3: "round64 (10 / 3) = Num (7505999378950827 / 2251799813685248)"
  by (subst round64_quantum[OF _ quantum_10_3]) (simp_all add: roundHalfEven_def Let_def pow2_def fl)

lemma quantum_40x: "pow2 (max (binaryExponent \<bar>40 * (7505999378950827 / 2251799813685248)\<bar>) (- 1022) - 52) = 1 / 2 ^ 45"
proof -
  have e: "40 * (7505999378950827 / 2251799813685248) = (37529996894754135 / 281474976710656 :: rat)"
    by simp
  have "(37529996894754135 / 281474976710656 :: rat) = Fract 37529996894754135 281474976710656"
    by (simp add: Fract_of_int_quotient)
  moreover have "coprime (37529996894754135::int) 281474976710656"
  proof -
    have "odd (37529996894754135::int)" by simp
    then have "coprime (37529996894754135::int) (2 ^ 48)"
      unfolding coprime_power_right_iff coprime_right_2_iff_odd by blast
    moreover have "(2::int) ^ 48 = 281474976710656" by simp
    ultimately show ?thesis by (simp only:)
  qed
  then have "quotient_of (Fract 37529996894754135 281474976710656) = (37529996894754135, 281474976710656)"
    by (simp add: quotient_of_Fract normalize_stable)
  ultimately have q: "quotient_of (37529996894754135 / 281474976710656) = (37529996894754135, 281474976710656)"
    by (simp only:)
  show ?thesis
    unfolding e
    by (simp add: binaryExponent_def pow2_def Let_def bitLength_numeral q)
qed


lemma fl2: "\<lfloor>(37529996894754135::rat) / 8\<rfloor> = 4691249611844266"
  by (simp add: floor_eq_iff)

lemma round64_40x:
  "round64 (40 * (7505999378950827 / 2251799813685248))
     = Num (4691249611844267 / 35184372088832)"
  by (subst round64_quantum[OF _ quantum_40x])
     (simp_all add: roundHalfEven_def Let_def pow2_def fl2)

text \<open>On representable values the operations are exact.\<close>

lemma ratio_exact:
  assumes "0 < n" and "0 < rw" and "representable (of_nat n)"
    and "representable (of_nat n / rw)"
  shows "jsDiv (ofNat n) (Num rw) = Num (of_nat n / rw)"
  using assms
  by (simp add: jsDiv_def ofNat_def representable_def isFinite_def isZero_def valueOf_def)

lemma minus_exact:
  assumes "representable (x - y)"
  shows "jsSub (Num x) (Num y) = Num (x - y)"
  using assms
  by (simp add: jsSub_def representable_def isFinite_def isZero_def isNegative_def
      valueOf_def signedZero_def)

lemma times_exact:
  assumes "0 < s" and "representable (x * s)"
  shows "jsMul (Num x) (Num s) = Num (x * s)"
  using assms
  by (simp add: jsMul_def representable_def isFinite_def isZero_def isNegative_def
      valueOf_def signedZero_def)

lemma scaled_exact:
  assumes "0 < n" and "0 < rw" and "representable (of_nat n)"
    and "representable (of_nat n / rw)" and "representable (x - y)"
    and "representable ((x - y) * (of_nat n / rw))"
  shows "jsMul (jsSub (Num x) (Num y)) (jsDiv (ofNat n) (Num rw))
           = Num ((x - y) * (of_nat n / rw))"
proof -
  from assms(1,2) have "0 < (of_nat n / rw :: rat)" by simp
  with assms show ?thesis
    by (simp add: ratio_exact minus_exact times_exact)
qed

section \<open>Properties of the pointer mapping\<close>

text \<open>The arithmetic of the 512 by 512 picture shown at 256 by 256.\<close>

lemma ofNat_512: "ofNat 512 = Num 512"
  using representable_512 by (simp add: ofNat_def representable_def)

lemma scale_512_256: "jsDiv (ofNat 512) (Num 256) = Num 2"
  using representable_2
  by (simp add: ofNat_512 jsDiv_def isFinite_def isZero_def valueOf_def representable_def)

lemma sub_10_10: "jsSub (Num 10) (Num 10) = Num 0"
  by (simp add: jsSub_def isFinite_def isZero_def isNegative_def valueOf_def signedZero_def)

lemma sub_148_20: "jsSub (Num 148) (Num 20) = Num 128"
  using representable_128
  by (simp add: jsSub_def isFinite_def valueOf_def representable_def)

lemma mul_0_2: "jsMul (Num 0) (Num 2) = Num 0"
  by (simp add: jsMul_def isFinite_def isZero_def isNegative_def signedZero_def)

lemma mul_128_2: "jsMul (Num 128) (Num 2) = Num 256"
  using representable_256
  by (simp add: jsMul_def isFinite_def isZero_def valueOf_def representable_def)

lemma pos_midLeft: "getMousePos (newCanvas 512 512) halfScale midLeft = (Num 0, Num 256)"
  by (simp add: getMousePos_def Let_def size_newCanvas halfScale_def midLeft_def
      scale_512_256 sub_10_10 sub_148_20 mul_0_2 mul_128_2)

lemma bitmap_newCanvas: "bitmap (newCanvas w h) = blank w h"
  by (simp add: newCanvas_def)

lemma path_newCanvas: "path (newCanvas w h) = []"
  by (simp add: newCanvas_def)

lemma startDrawing_at512:
  "startDrawing halfScale midLeft at512
     = at512\<lparr>isDrawing := True,
             sourceDrawingCanvas := Some ((newCanvas 512 512)\<lparr>path := [(Num 0, Num 256)]\<rparr>)\<rparr>"
  by (simp add: startDrawing_def Let_def at512_def pos_midLeft beginPathMoveTo_def isFinite_def)

text \<open>
  The brush of 40 on a canvas ten pixels wide shown three CSS pixels wide: the line
  width is the double \<^verbatim>\<open>133.33333333333334\<close>, not \<open>400 / 3\<close>.
\<close>

lemma nativeBrushSize_rounds:
  "nativeBrushSize (Num 40) (newCanvas 10 10) thirds
     = Num (4691249611844267 / 35184372088832)"
proof -
  have n: "ofNat 10 = Num 10"
    using representable_10 by (simp add: ofNat_def representable_def)
  have d: "jsDiv (Num 10) (Num 3) = Num (7505999378950827 / 2251799813685248)"
    using round64_10_3 by (simp add: jsDiv_def isFinite_def isZero_def valueOf_def)
  have m: "jsMul (Num 40) (Num (7505999378950827 / 2251799813685248))
             = Num (4691249611844267 / 35184372088832)"
    using round64_40x by (simp add: jsMul_def isFinite_def isZero_def valueOf_def)
  show ?thesis
    by (simp add: nativeBrushSize_def size_newCanvas thirds_def n d m)
qed

text \<open>The example rasteriser on a blank bitmap, and the band it paints for a horizontal path.\<close>

lemma length_data_blank: "length (data (blank w h)) = w * h"
  by (simp add: blank_def)

lemma nth_data_blank: "i < w * h \<Longrightarrow> data (blank w h) ! i = transparent"
  by (simp add: blank_def)

lemma pixelAt_discStroke_blank:
  assumes "x < w" and "y < h"
  shows "pixelAt (discStroke pts lw style (blank w h)) x y =
           (if coveredBy (map (\<lambda>pt. (valueOf (fst pt), valueOf (snd pt))) pts) (valueOf lw)
                 (of_nat x + 1 / 2, of_nat y + 1 / 2)
            then composite SourceOver (colourOf style) transparent else transparent)"
proof -
  from assms(2) have "Suc y \<le> h"
    by simp
  then have "Suc y * w \<le> h * w"
    by (rule mult_le_mono1)
  moreover from assms(1) have "y * w + x < Suc y * w"
    by simp
  ultimately have i: "y * w + x < w * h"
    by (simp only: mult.commute[of w h])
  from assms(1) have m: "(y * w + x) mod w = x" "(y * w + x) div w = y"
    by simp_all
  show ?thesis
    unfolding discStroke_def pixelAt_def
    using assms i m
    by (simp add: width_paint height_paint length_data_paint nth_data_paint
        width_blank height_blank length_data_blank nth_data_blank)
qed

lemma segment_horizontal:
  assumes "0 \<le> px" and "px \<le> 512"
  shows "segmentDistance2 (px, py) (0, 256) (512, 256) = (py - 256) * (py - 256)"
proof -
  have t: "max 0 (min 1 (px / 512)) = px / 512"
    using assms by (simp add: min_def max_def)
  show ?thesis
    by (simp add: segmentDistance2_def Let_def t)
qed

lemma band_rows:
  "((of_nat y + 1 / 2 - 256) * (of_nat y + 1 / 2 - 256) \<le> (1600::rat))
     = (216 \<le> y \<and> y \<le> 295)"
proof -
  have "(1600::rat) = 40 * 40"
    by simp
  then have "((of_nat y + 1 / 2 - 256) * (of_nat y + 1 / 2 - 256) \<le> (1600::rat))
          = (\<bar>of_nat y + 1 / 2 - 256 :: rat\<bar> \<le> \<bar>40\<bar>)"
    by (simp only: abs_le_square_iff power2_eq_square)
  also have "\<dots> = ((of_nat (2 * y) :: rat) \<le> of_nat 591 \<and> (of_nat 431 :: rat) \<le> of_nat (2 * y))"
    by (simp add: abs_le_iff) linarith
  also have "\<dots> = (2 * y \<le> 591 \<and> 431 \<le> 2 * y)"
    by (simp only: of_nat_le_iff)
  also have "\<dots> = (216 \<le> y \<and> y \<le> 295)"
    by linarith
  finally show ?thesis .
qed

lemma stroke_colour:
  "composite SourceOver (colourOf (236, 72, 153, 7 / 10)) transparent = strokeColour"
proof -
  have f: "\<lfloor>(473::rat) / 2\<rfloor> = 236" "\<lfloor>(145::rat) / 2\<rfloor> = 72"
    "\<lfloor>(307::rat) / 2\<rfloor> = 153" "\<lfloor>(359::rat) / 2\<rfloor> = 179"
    by (simp_all add: floor_eq_iff)
  show ?thesis
    by (simp add: composite_def Let_def colourOf_def transparent_def strokeColour_def
        unit_of_def quantize_def round_def f)
qed

lemma band:
  assumes "x < 512" and "y < 512"
  shows "pixelAt (discStroke [(Num 0, Num 256), (Num 512, Num 256)] (Num 80)
                    (236, 72, 153, 7 / 10) (blank 512 512)) x y
           = (if 216 \<le> y \<and> y \<le> 295 then strokeColour else transparent)"
proof -
  have x: "(0::rat) \<le> of_nat x + 1 / 2" "of_nat x + 1 / 2 \<le> (512::rat)"
    using assms(1) by simp_all
  have c: "(segmentDistance2 (of_nat x + 1 / 2, of_nat y + 1 / 2) (0, 256) (512, 256) \<le> 1600)
             = (216 \<le> y \<and> y \<le> 295)"
    using band_rows[of y] by (simp add: segment_horizontal[OF x])
  show ?thesis
    by (simp add: pixelAt_discStroke_blank[OF assms] valueOf_def c stroke_colour)
qed

text \<open>
  C9: \<^verbatim>\<open>getMousePos\<close> takes the offsets of the pointer from the corner of the drawing
  surface's bounding box and multiplies them by native width over displayed width and
  by native height over displayed height; \<^verbatim>\<open>draw\<close> multiplies the brush size by native
  width over displayed width, and, the position being finite and that width positive,
  appends the position to the path, sets the line width and has the rasteriser paint
  the path with that line width in the stroke colour.  Every operation is the one on
  doubles; where the differences, the ratio and the products are doubles themselves,
  the results are the exact products.  In the example the 40 pixel brush on a 512
  pixel canvas shown at 256 CSS pixels is a line width of 80, and the stroke from the
  left to the right edge at mid height covers the 80 rows 216 to 295.
\<close>

theorem pointer_and_brush_scaling:
  "getMousePos canvas rect evt =
     (jsMul (jsSub (clientX evt) (left rect))
            (jsDiv (ofNat (width (bitmap canvas))) (rectWidth rect)),
      jsMul (jsSub (clientY evt) (top rect))
            (jsDiv (ofNat (height (bitmap canvas))) (rectHeight rect))) \<and>
   nativeBrushSize b canvas rect
     = jsMul b (jsDiv (ofNat (width (bitmap canvas))) (rectWidth rect)) \<and>
   (isDrawing st \<and> sourceDrawingCanvas st = Some canvas \<and>
    isFinite (fst (getMousePos canvas rect evt)) \<and>
    isFinite (snd (getMousePos canvas rect evt)) \<and>
    isPositive (nativeBrushSize (brushSize st) canvas rect) \<longrightarrow>
      sourceDrawingCanvas (draw stroke rect evt st) =
        Some (canvas
               \<lparr>bitmap := stroke (path canvas @ [getMousePos canvas rect evt])
                            (nativeBrushSize (brushSize st) canvas rect)
                            (236, 72, 153, 7 / 10) (bitmap canvas),
                path := path canvas @ [getMousePos canvas rect evt],
                strokeStyle := (236, 72, 153, 7 / 10),
                lineWidth := nativeBrushSize (brushSize st) canvas rect\<rparr>)) \<and>
   (clientX evt = Num cx \<and> left rect = Num l \<and> rectWidth rect = Num rw \<and> 0 < rw \<and>
    0 < width (bitmap canvas) \<and> representable (of_nat (width (bitmap canvas))) \<and>
    representable (of_nat (width (bitmap canvas)) / rw) \<and> representable (cx - l) \<and>
    representable ((cx - l) * (of_nat (width (bitmap canvas)) / rw)) \<longrightarrow>
      fst (getMousePos canvas rect evt)
        = Num ((cx - l) * (of_nat (width (bitmap canvas)) / rw))) \<and>
   (clientY evt = Num cy \<and> top rect = Num t \<and> rectHeight rect = Num rh \<and> 0 < rh \<and>
    0 < height (bitmap canvas) \<and> representable (of_nat (height (bitmap canvas))) \<and>
    representable (of_nat (height (bitmap canvas)) / rh) \<and> representable (cy - t) \<and>
    representable ((cy - t) * (of_nat (height (bitmap canvas)) / rh)) \<longrightarrow>
      snd (getMousePos canvas rect evt)
        = Num ((cy - t) * (of_nat (height (bitmap canvas)) / rh))) \<and>
   (b = Num bs \<and> rectWidth rect = Num rw \<and> 0 < rw \<and>
    0 < width (bitmap canvas) \<and> representable (of_nat (width (bitmap canvas))) \<and>
    representable (of_nat (width (bitmap canvas)) / rw) \<and>
    representable (bs * (of_nat (width (bitmap canvas)) / rw)) \<longrightarrow>
      nativeBrushSize b canvas rect = Num (bs * (of_nat (width (bitmap canvas)) / rw)))"
proof (intro conjI impI)
  show "getMousePos canvas rect evt =
     (jsMul (jsSub (clientX evt) (left rect))
            (jsDiv (ofNat (width (bitmap canvas))) (rectWidth rect)),
      jsMul (jsSub (clientY evt) (top rect))
            (jsDiv (ofNat (height (bitmap canvas))) (rectHeight rect)))"
    by (simp add: getMousePos_def Let_def)
next
  show "nativeBrushSize b canvas rect
     = jsMul b (jsDiv (ofNat (width (bitmap canvas))) (rectWidth rect))"
    by (simp add: nativeBrushSize_def)
next
  assume "isDrawing st \<and> sourceDrawingCanvas st = Some canvas \<and>
    isFinite (fst (getMousePos canvas rect evt)) \<and>
    isFinite (snd (getMousePos canvas rect evt)) \<and>
    isPositive (nativeBrushSize (brushSize st) canvas rect)"
  then show "sourceDrawingCanvas (draw stroke rect evt st) =
        Some (canvas
               \<lparr>bitmap := stroke (path canvas @ [getMousePos canvas rect evt])
                            (nativeBrushSize (brushSize st) canvas rect)
                            (236, 72, 153, 7 / 10) (bitmap canvas),
                path := path canvas @ [getMousePos canvas rect evt],
                strokeStyle := (236, 72, 153, 7 / 10),
                lineWidth := nativeBrushSize (brushSize st) canvas rect\<rparr>)"
    by (simp add: draw_def lineTo_def setLineWidth_def Let_def)
next
  assume h: "clientX evt = Num cx \<and> left rect = Num l \<and> rectWidth rect = Num rw \<and> 0 < rw \<and>
    0 < width (bitmap canvas) \<and> representable (of_nat (width (bitmap canvas))) \<and>
    representable (of_nat (width (bitmap canvas)) / rw) \<and> representable (cx - l) \<and>
    representable ((cx - l) * (of_nat (width (bitmap canvas)) / rw))"
  then show "fst (getMousePos canvas rect evt)
        = Num ((cx - l) * (of_nat (width (bitmap canvas)) / rw))"
    by (simp add: getMousePos_def Let_def scaled_exact)
next
  assume h: "clientY evt = Num cy \<and> top rect = Num t \<and> rectHeight rect = Num rh \<and> 0 < rh \<and>
    0 < height (bitmap canvas) \<and> representable (of_nat (height (bitmap canvas))) \<and>
    representable (of_nat (height (bitmap canvas)) / rh) \<and> representable (cy - t) \<and>
    representable ((cy - t) * (of_nat (height (bitmap canvas)) / rh))"
  then show "snd (getMousePos canvas rect evt)
        = Num ((cy - t) * (of_nat (height (bitmap canvas)) / rh))"
    by (simp add: getMousePos_def Let_def scaled_exact)
next
  assume h: "b = Num bs \<and> rectWidth rect = Num rw \<and> 0 < rw \<and>
    0 < width (bitmap canvas) \<and> representable (of_nat (width (bitmap canvas))) \<and>
    representable (of_nat (width (bitmap canvas)) / rw) \<and>
    representable (bs * (of_nat (width (bitmap canvas)) / rw))"
  then show "nativeBrushSize b canvas rect = Num (bs * (of_nat (width (bitmap canvas)) / rw))"
    by (simp add: nativeBrushSize_def ratio_exact times_exact)
qed

theorem pointer_and_brush_scaling_witness:
  "getMousePos ((newCanvas 512 512)\<lparr>path := [(Num 0, Num 256)]\<rparr>) halfScale midRight
     = (Num 512, Num 256) \<and>
   nativeBrushSize (Num 40) ((newCanvas 512 512)\<lparr>path := [(Num 0, Num 256)]\<rparr>) halfScale
     = Num 80 \<and>
   sourceDrawingCanvas (draw discStroke halfScale midRight (startDrawing halfScale midLeft at512))
     = Some ((newCanvas 512 512)
              \<lparr>bitmap := discStroke [(Num 0, Num 256), (Num 512, Num 256)] (Num 80)
                           (236, 72, 153, 7 / 10) (blank 512 512),
               path := [(Num 0, Num 256), (Num 512, Num 256)],
               strokeStyle := (236, 72, 153, 7 / 10),
               lineWidth := Num 80\<rparr>) \<and>
   pixelAt (discStroke [(Num 0, Num 256), (Num 512, Num 256)] (Num 80)
              (236, 72, 153, 7 / 10) (blank 512 512)) 300 215 = transparent \<and>
   pixelAt (discStroke [(Num 0, Num 256), (Num 512, Num 256)] (Num 80)
              (236, 72, 153, 7 / 10) (blank 512 512)) 300 216 = strokeColour \<and>
   pixelAt (discStroke [(Num 0, Num 256), (Num 512, Num 256)] (Num 80)
              (236, 72, 153, 7 / 10) (blank 512 512)) 300 295 = strokeColour \<and>
   pixelAt (discStroke [(Num 0, Num 256), (Num 512, Num 256)] (Num 80)
              (236, 72, 153, 7 / 10) (blank 512 512)) 300 296 = transparent"
proof -
  define canvas where "canvas = (newCanvas 512 512)\<lparr>path := [(Num 0, Num 256)]\<rparr>"
  define st where "st = startDrawing halfScale midLeft at512"
  have c: "width (bitmap canvas) = 512" "height (bitmap canvas) = 512"
    "bitmap canvas = blank 512 512" "path canvas = [(Num 0, Num 256)]"
    by (simp_all add: canvas_def bitmap_newCanvas path_newCanvas width_blank height_blank)
  have s: "isDrawing st" "sourceDrawingCanvas st = Some canvas" "brushSize st = Num 40"
    unfolding st_def startDrawing_at512 canvas_def
    by (simp_all add: at512_def initialEditor_def)
  have e: "clientX midRight = Num 266" "clientY midRight = Num 148"
    "left halfScale = Num 10" "top halfScale = Num 20"
    "rectWidth halfScale = Num 256" "rectHeight halfScale = Num 256"
    by (simp_all add: midRight_def halfScale_def)
  note r = representable_2 representable_80 representable_128 representable_256
    representable_512
  note T = pointer_and_brush_scaling[where canvas = canvas and rect = halfScale
      and evt = midRight and b = "Num 40" and st = st and stroke = discStroke
      and cx = 266 and l = 10 and rw = 256 and cy = 148 and t = 20 and rh = 256 and bs = 40]
  note T3 = T[THEN conjunct2, THEN conjunct2, THEN conjunct1]
  note T4 = T[THEN conjunct2, THEN conjunct2, THEN conjunct2, THEN conjunct1]
  note T5 = T[THEN conjunct2, THEN conjunct2, THEN conjunct2, THEN conjunct2, THEN conjunct1]
  note T6 = T[THEN conjunct2, THEN conjunct2, THEN conjunct2, THEN conjunct2, THEN conjunct2]
  from T4 c e r have x: "fst (getMousePos canvas halfScale midRight) = Num 512"
    by simp
  from T5 c e r have y: "snd (getMousePos canvas halfScale midRight) = Num 256"
    by simp
  from x y have p: "getMousePos canvas halfScale midRight = (Num 512, Num 256)"
    by (simp add: prod_eq_iff)
  from T6 c e r have w: "nativeBrushSize (Num 40) canvas halfScale = Num 80"
    by simp
  from T3 s p w c
  have d: "sourceDrawingCanvas (draw discStroke halfScale midRight st) =
        Some (canvas
               \<lparr>bitmap := discStroke [(Num 0, Num 256), (Num 512, Num 256)] (Num 80)
                            (236, 72, 153, 7 / 10) (blank 512 512),
                path := [(Num 0, Num 256), (Num 512, Num 256)],
                strokeStyle := (236, 72, 153, 7 / 10),
                lineWidth := Num 80\<rparr>)"
    by (simp add: isFinite_def isPositive_def)
  have px: "pixelAt (discStroke [(Num 0, Num 256), (Num 512, Num 256)] (Num 80)
              (236, 72, 153, 7 / 10) (blank 512 512)) 300 215 = transparent"
    "pixelAt (discStroke [(Num 0, Num 256), (Num 512, Num 256)] (Num 80)
              (236, 72, 153, 7 / 10) (blank 512 512)) 300 216 = strokeColour"
    "pixelAt (discStroke [(Num 0, Num 256), (Num 512, Num 256)] (Num 80)
              (236, 72, 153, 7 / 10) (blank 512 512)) 300 295 = strokeColour"
    "pixelAt (discStroke [(Num 0, Num 256), (Num 512, Num 256)] (Num 80)
              (236, 72, 153, 7 / 10) (blank 512 512)) 300 296 = transparent"
    by (simp_all add: band)
  from p w d px show ?thesis
    unfolding canvas_def st_def by simp
qed

section \<open>Properties of the edit session\<close>

lemma ready_fields:
  "image readyEditor = Some pngImage"
  "prompt readyEditor = lit ''add a pool''"
  "referenceImage readyEditor = None"
  "sourceDrawingCanvas readyEditor = Some strokeAndGap"
  "resultImage readyEditor = Some (lit ''data:image/png;base64,REVG'')"
  "drawingHistory readyEditor = [bitmap strokeAndGap]"
  by (simp_all add: readyEditor_def initialEditor_def)

lemma lit_not_empty: "lit ''add a pool'' \<noteq> []"
  by (simp add: lit_def)

text \<open>
  C4: with no source image or an empty prompt, \<^verbatim>\<open>handleGenerate\<close> only shows the
  missing-input alert; with both present but no mask (no drawing canvas, or no 2D
  context) it only shows the mask alert.  In either case the editor, the edit
  history and the list of requests sent are what they were.
\<close>

theorem submit_preconditions:
  "(image (editor w) = None \<or> prompt (editor w) = [] \<longrightarrow>
      handleGenerate png ctxAvailable editImage now time w
        = w\<lparr>alerts := alerts w @ [AlertMissingInput]\<rparr>) \<and>
   (image (editor w) \<noteq> None \<and> prompt (editor w) \<noteq> [] \<and>
    generateMaskImage png ctxAvailable (sourceDrawingCanvas (editor w)) = Inr None \<longrightarrow>
      handleGenerate png ctxAvailable editImage now time w
        = w\<lparr>alerts := alerts w @ [AlertMaskFailed]\<rparr>) \<and>
   (sourceDrawingCanvas (editor w) = None \<or> \<not> ctxAvailable \<longrightarrow>
      generateMaskImage png ctxAvailable (sourceDrawingCanvas (editor w)) = Inr None) \<and>
   editor (w\<lparr>alerts := a\<rparr>) = editor w \<and> editHistory (w\<lparr>alerts := a\<rparr>) = editHistory w \<and>
   requests (w\<lparr>alerts := a\<rparr>) = requests w"
proof (intro conjI impI)
  assume "image (editor w) = None \<or> prompt (editor w) = []"
  then show "handleGenerate png ctxAvailable editImage now time w
               = w\<lparr>alerts := alerts w @ [AlertMissingInput]\<rparr>"
    by (auto simp add: handleGenerate_def split: option.splits sum.splits)
next
  assume "image (editor w) \<noteq> None \<and> prompt (editor w) \<noteq> [] \<and>
          generateMaskImage png ctxAvailable (sourceDrawingCanvas (editor w)) = Inr None"
  then show "handleGenerate png ctxAvailable editImage now time w
               = w\<lparr>alerts := alerts w @ [AlertMaskFailed]\<rparr>"
    by (auto simp add: handleGenerate_def split: option.splits sum.splits)
next
  assume "sourceDrawingCanvas (editor w) = None \<or> \<not> ctxAvailable"
  then show "generateMaskImage png ctxAvailable (sourceDrawingCanvas (editor w)) = Inr None"
    by (simp add: generateMaskImage_None)
qed simp_all

theorem submit_preconditions_witness:
  "image (editor (initialWorld\<lparr>editor := initialEditor\<lparr>prompt := lit ''add a pool''\<rparr>\<rparr>)) = None \<and>
   handleGenerate pngStub True (\<lambda>req. Rejected) 0 []
       (initialWorld\<lparr>editor := initialEditor\<lparr>prompt := lit ''add a pool''\<rparr>\<rparr>)
     = initialWorld\<lparr>editor := initialEditor\<lparr>prompt := lit ''add a pool''\<rparr>,
                    alerts := [AlertMissingInput]\<rparr> \<and>
   image (editor (readyWorld\<lparr>editor := readyEditor\<lparr>sourceDrawingCanvas := None\<rparr>\<rparr>)) \<noteq> None \<and>
   prompt (editor (readyWorld\<lparr>editor := readyEditor\<lparr>sourceDrawingCanvas := None\<rparr>\<rparr>)) \<noteq> [] \<and>
   sourceDrawingCanvas (editor (readyWorld\<lparr>editor := readyEditor\<lparr>sourceDrawingCanvas := None\<rparr>\<rparr>))
     = None \<and>
   handleGenerate pngStub True (\<lambda>req. Rejected) 0 []
       (readyWorld\<lparr>editor := readyEditor\<lparr>sourceDrawingCanvas := None\<rparr>\<rparr>)
     = readyWorld\<lparr>editor := readyEditor\<lparr>sourceDrawingCanvas := None\<rparr>,
                  alerts := [AlertMaskFailed]\<rparr>"
proof -
  let ?w1 = "initialWorld\<lparr>editor := initialEditor\<lparr>prompt := lit ''add a pool''\<rparr>\<rparr>"
  let ?w2 = "readyWorld\<lparr>editor := readyEditor\<lparr>sourceDrawingCanvas := None\<rparr>\<rparr>"
  have a: "image (editor ?w1) = None" "alerts ?w1 = []"
    by (simp_all add: initialWorld_def initialEditor_def)
  have b: "image (editor ?w2) \<noteq> None" "prompt (editor ?w2) \<noteq> []"
    "sourceDrawingCanvas (editor ?w2) = None" "alerts ?w2 = []"
    by (simp_all add: readyWorld_def initialWorld_def ready_fields lit_not_empty)
  from submit_preconditions[of ?w1 pngStub True "\<lambda>req. Rejected" 0 "[]"]
    submit_preconditions[of ?w2 pngStub True "\<lambda>req. Rejected" 0 "[]"] a b
  show ?thesis by simp
qed

text \<open>
  C3 (as amended): when the service call fails, \<^verbatim>\<open>handleGenerate\<close> leaves the edit
  history as it was and, of the editor, changes nothing but the result on display,
  which it clears, and the loading flag, which ends false: source image, prompt,
  reference image, drawing stack and drawing layer are untouched.  One request has
  been sent and one alert shown.
\<close>

theorem failed_submit:
  assumes "image (editor w) = Some img" and "prompt (editor w) \<noteq> []"
    and "generateMaskImage png ctxAvailable (sourceDrawingCanvas (editor w)) = Inr (Some m)"
    and "failed (editImage \<lparr>reqSource = img, reqMask = m, reqPrompt = prompt (editor w),
                           reqReference = referenceImage (editor w)\<rparr>)"
  shows "handleGenerate png ctxAvailable editImage now time w =
           w\<lparr>editor := (editor w)\<lparr>isLoading := False, resultImage := None\<rparr>,
             requests := requests w @ [\<lparr>reqSource = img, reqMask = m,
                                       reqPrompt = prompt (editor w),
                                       reqReference = referenceImage (editor w)\<rparr>],
             alerts := alerts w @ [AlertEditFailed]\<rparr> \<and>
         editHistory (handleGenerate png ctxAvailable editImage now time w) = editHistory w \<and>
         image (editor (handleGenerate png ctxAvailable editImage now time w))
           = image (editor w) \<and>
         prompt (editor (handleGenerate png ctxAvailable editImage now time w))
           = prompt (editor w) \<and>
         referenceImage (editor (handleGenerate png ctxAvailable editImage now time w))
           = referenceImage (editor w) \<and>
         drawingHistory (editor (handleGenerate png ctxAvailable editImage now time w))
           = drawingHistory (editor w) \<and>
         sourceDrawingCanvas (editor (handleGenerate png ctxAvailable editImage now time w))
           = sourceDrawingCanvas (editor w) \<and>
         resultImage (editor (handleGenerate png ctxAvailable editImage now time w)) = None"
proof -
  have eq: "handleGenerate png ctxAvailable editImage now time w =
           w\<lparr>editor := (editor w)\<lparr>isLoading := False, resultImage := None\<rparr>,
             requests := requests w @ [\<lparr>reqSource = img, reqMask = m,
                                       reqPrompt = prompt (editor w),
                                       reqReference = referenceImage (editor w)\<rparr>],
             alerts := alerts w @ [AlertEditFailed]\<rparr>"
    using assms
    by (auto simp add: handleGenerate_def failed_def Let_def
        split: option.splits editOutcome.splits sum.splits)
  show ?thesis unfolding eq by simp
qed

lemma ready_world_mask:
  "generateMaskImage pngStub True (sourceDrawingCanvas (editor readyWorld))
     = Inr (Some stubMask)"
  by (simp add: readyWorld_def initialWorld_def ready_fields generateMaskImage_stub)

theorem failed_submit_witness:
  "image (editor readyWorld) = Some pngImage \<and> prompt (editor readyWorld) \<noteq> [] \<and>
   generateMaskImage pngStub True (sourceDrawingCanvas (editor readyWorld))
     = Inr (Some stubMask) \<and>
   failed Rejected \<and>
   handleGenerate pngStub True (\<lambda>req. Rejected) 0 [] readyWorld =
     readyWorld\<lparr>editor := readyEditor\<lparr>isLoading := False, resultImage := None\<rparr>,
                requests := [\<lparr>reqSource = pngImage, reqMask = stubMask,
                              reqPrompt = lit ''add a pool'', reqReference = None\<rparr>],
                alerts := [AlertEditFailed]\<rparr>"
proof -
  have h1: "image (editor readyWorld) = Some pngImage"
    and h2: "prompt (editor readyWorld) \<noteq> []"
    and r: "editor readyWorld = readyEditor" "requests readyWorld = []" "alerts readyWorld = []"
    by (simp_all add: readyWorld_def initialWorld_def ready_fields lit_not_empty)
  have h4: "failed ((\<lambda>req. Rejected) \<lparr>reqSource = pngImage, reqMask = stubMask,
               reqPrompt = prompt (editor readyWorld),
               reqReference = referenceImage (editor readyWorld)\<rparr>)"
    by (simp add: failed_def)
  from failed_submit[where editImage = "\<lambda>req. Rejected" and now = 0 and time = "[]",
      OF h1 h2 ready_world_mask h4] h1 h2 ready_world_mask r
  show ?thesis by (simp add: failed_def ready_fields)
qed

text \<open>
  The claim C3 as stated also wants the prior state intact; the result that was on
  display before the failed call is gone after it.
\<close>

theorem failed_submit_loses_result:
  "resultImage (editor readyWorld) = Some (lit ''data:image/png;base64,REVG'') \<and>
   resultImage (editor (handleGenerate pngStub True (\<lambda>req. Rejected) 0 [] readyWorld)) = None \<and>
   editor (handleGenerate pngStub True (\<lambda>req. Rejected) 0 [] readyWorld) \<noteq> editor readyWorld"
proof -
  have a: "resultImage (editor readyWorld) = Some (lit ''data:image/png;base64,REVG'')"
    by (simp add: readyWorld_def initialWorld_def ready_fields)
  have b: "resultImage (editor (handleGenerate pngStub True (\<lambda>req. Rejected) 0 [] readyWorld))
             = None"
    using ready_world_mask
    by (simp add: handleGenerate_def Let_def readyWorld_def initialWorld_def ready_fields
        lit_not_empty)
  from a b show ?thesis by auto
qed

lemma submit_success:
  assumes "succeeds s"
  shows "\<exists>item. editHistory (submit s w) = item # editHistory w \<and>
               itemId item = subNow s \<and> timestamp item = subTime s \<and>
               Some (sourceImage item) = image (subEditor s) \<and>
               editPrompt item = prompt (subEditor s) \<and>
               editReference item = referenceImage (subEditor s) \<and>
               resultImage (editor (submit s w)) = Some (editResult item)"
  using assms
  by (auto simp add: succeeds_def failed_def submit_def handleGenerate_def
      handleEditComplete_def Let_def EditDetails.extend_def
      split: option.splits editOutcome.splits sum.splits)

lemma submit_keeps_drawing:
  "drawingHistory (editor (submit s w)) = drawingHistory (subEditor s) \<and>
   sourceDrawingCanvas (editor (submit s w)) = sourceDrawingCanvas (subEditor s) \<and>
   image (editor (submit s w)) = image (subEditor s) \<and>
   prompt (editor (submit s w)) = prompt (subEditor s)"
  by (auto simp add: submit_def handleGenerate_def Let_def
      split: option.splits editOutcome.splits sum.splits)

lemma submitAll_success:
  "list_all succeeds ss \<Longrightarrow>
     \<exists>new. editHistory (submitAll ss w) = new @ editHistory w \<and>
           map itemId new = rev (map subNow ss)"
proof (induction ss arbitrary: w)
  case Nil
  then show ?case by (simp add: submitAll_def)
next
  case (Cons s ss)
  from Cons.prems have s: "succeeds s" and ss: "list_all succeeds ss" by simp_all
  from submit_success[OF s, of w] obtain item where
    item: "editHistory (submit s w) = item # editHistory w" "itemId item = subNow s"
    by blast
  from Cons.IH[OF ss, of "submit s w"] obtain new where
    new: "editHistory (submitAll ss (submit s w)) = new @ editHistory (submit s w)"
      "map itemId new = rev (map subNow ss)"
    by blast
  have "submitAll (s # ss) w = submitAll ss (submit s w)"
    by (simp add: submitAll_def)
  with item new have "editHistory (submitAll (s # ss) w) = (new @ [item]) @ editHistory w"
    and "map itemId (new @ [item]) = rev (map subNow (s # ss))"
    by simp_all
  then show ?case by blast
qed

text \<open>
  C5: after M successful submissions the edit history is M new items in front of the
  old list, which is unchanged; the new items carry the clock readings of the
  submissions, latest first; starting from the empty history the list has length M.
  Each successful submission puts exactly one item in front and leaves the drawing
  stack and the drawing layer as it found them.
\<close>

theorem successful_submits_append:
  assumes "list_all succeeds ss"
  shows "(\<exists>new. editHistory (submitAll ss w) = new @ editHistory w \<and>
               length new = length ss \<and>
               map itemId new = rev (map subNow ss)) \<and>
         (editHistory w = [] \<longrightarrow> length (editHistory (submitAll ss w)) = length ss) \<and>
         (\<forall>s \<in> set ss. \<forall>v.
            (\<exists>item. editHistory (submit s v) = item # editHistory v) \<and>
            drawingHistory (editor (submit s v)) = drawingHistory (subEditor s) \<and>
            sourceDrawingCanvas (editor (submit s v)) = sourceDrawingCanvas (subEditor s))"
proof -
  from submitAll_success[OF assms, of w] obtain new where
    new: "editHistory (submitAll ss w) = new @ editHistory w"
      "map itemId new = rev (map subNow ss)"
    by blast
  from new(2) have len: "length new = length ss"
    by (metis length_map length_rev)
  have each: "\<forall>s \<in> set ss. \<forall>v.
            (\<exists>item. editHistory (submit s v) = item # editHistory v) \<and>
            drawingHistory (editor (submit s v)) = drawingHistory (subEditor s) \<and>
            sourceDrawingCanvas (editor (submit s v)) = sourceDrawingCanvas (subEditor s)"
  proof (intro ballI allI)
    fix s v assume "s \<in> set ss"
    with assms have "succeeds s" by (simp add: list_all_iff)
    from submit_success[OF this, of v] submit_keeps_drawing[of s v]
    show "(\<exists>item. editHistory (submit s v) = item # editHistory v) \<and>
            drawingHistory (editor (submit s v)) = drawingHistory (subEditor s) \<and>
            sourceDrawingCanvas (editor (submit s v)) = sourceDrawingCanvas (subEditor s)"
      by blast
  qed
  from new len each show ?thesis by auto
qed

lemma submissionAt_succeeds: "succeeds (submissionAt t)"
  by (simp add: succeeds_def submissionAt_def ready_fields lit_not_empty
      generateMaskImage_stub failed_def lit_def)

theorem successful_submits_append_witness:
  "list_all succeeds [submissionAt 100, submissionAt 200] \<and>
   editHistory initialWorld = [] \<and>
   length (editHistory (submitAll [submissionAt 100, submissionAt 200] initialWorld)) = 2 \<and>
   map itemId (editHistory (submitAll [submissionAt 100, submissionAt 200] initialWorld))
     = [200, 100]"
proof -
  have h: "list_all succeeds [submissionAt 100, submissionAt 200]"
    by (simp add: submissionAt_succeeds)
  have e: "editHistory initialWorld = []"
    by (simp add: initialWorld_def)
  have n: "subNow (submissionAt t) = t" for t
    by (simp add: submissionAt_def)
  from successful_submits_append[OF h, of initialWorld] obtain new where
    new: "editHistory (submitAll [submissionAt 100, submissionAt 200] initialWorld) = new @ []"
      "map itemId new = [200, 100]" "length new = 2"
    by (auto simp add: e n)
  with h e show ?thesis by simp
qed

section \<open>Properties of data URLs and of chaining\<close>

lemma stripPrefix_Some: "stripPrefix p s = Some r \<longleftrightarrow> s = p @ r"
  by (induction p s rule: stripPrefix.induct) auto

lemma stripPrefix_append: "stripPrefix p (p @ r) = Some r"
  by (simp add: stripPrefix_Some)

lemma semicolon_not_lower:
  "takeWhile isLower (lit '';base64,'' @ r) = []"
  "dropWhile isLower (lit '';base64,'' @ r) = lit '';base64,'' @ r"
  by (simp_all add: lit_def isLower_def)

lemma acceptedShape_iff:
  "acceptedShape img \<longleftrightarrow>
     (\<exists>letters. letters \<noteq> [] \<and> list_all isLower letters \<and>
                mimeType img = lit ''image/'' @ letters \<and>
                base64 img \<noteq> [] \<and> list_all (\<lambda>c. \<not> isLineTerminator c) (base64 img))"
  by (auto simp add: acceptedShape_def stripPrefix_Some stripPrefix_append
      split: option.splits)

lemma parse_build:
  assumes "letters \<noteq> []" and "list_all isLower letters"
    and "b \<noteq> []" and "list_all (\<lambda>c. \<not> isLineTerminator c) b"
  shows "dataUrlToSourceImage (lit ''data:'' @ (lit ''image/'' @ letters) @ lit '';base64,'' @ b)
           = Some \<lparr>base64 = b, mimeType = lit ''image/'' @ letters\<rparr>"
proof -
  have tw: "takeWhile isLower (letters @ lit '';base64,'' @ b) = letters"
    using assms(2) by (simp add: list_all_iff semicolon_not_lower)
  have dw: "dropWhile isLower (letters @ lit '';base64,'' @ b) = lit '';base64,'' @ b"
    using assms(2) by (simp add: list_all_iff semicolon_not_lower)
  show ?thesis
    using assms(1,3,4)
    by (simp add: dataUrlToSourceImage_def stripPrefix_append tw dw)
qed

lemma parse_accepted:
  assumes "acceptedShape img"
  shows "dataUrlToSourceImage (dataUrlOf img) = Some img"
proof -
  from assms obtain letters where l: "letters \<noteq> []" "list_all isLower letters"
    "mimeType img = lit ''image/'' @ letters" "base64 img \<noteq> []"
    "list_all (\<lambda>c. \<not> isLineTerminator c) (base64 img)"
    unfolding acceptedShape_iff by blast
  from parse_build[OF l(1,2,4,5)] l(3) show ?thesis
    by (simp add: dataUrlOf_def)
qed

lemma parse_Some:
  assumes "dataUrlToSourceImage s = Some img"
  shows "acceptedShape img \<and> s = dataUrlOf img"
proof -
  from assms obtain r1 r2 r3 where
    r1: "s = lit ''data:'' @ r1" and r2: "r1 = lit ''image/'' @ r2"
    and ne: "takeWhile isLower r2 \<noteq> []"
    and r3: "dropWhile isLower r2 = lit '';base64,'' @ r3"
    and b: "r3 \<noteq> []" "list_all (\<lambda>c. \<not> isLineTerminator c) r3"
    and img: "img = \<lparr>base64 = r3, mimeType = lit ''image/'' @ takeWhile isLower r2\<rparr>"
    by (auto simp add: dataUrlToSourceImage_def stripPrefix_Some
        split: option.splits if_splits)
  have low: "list_all isLower (takeWhile isLower r2)"
    by (auto simp add: list_all_iff dest: set_takeWhileD)
  have "r2 = takeWhile isLower r2 @ dropWhile isLower r2" by simp
  with r3 have "r2 = takeWhile isLower r2 @ lit '';base64,'' @ r3" by simp
  with r1 r2 img have "s = dataUrlOf img" by (simp add: dataUrlOf_def)
  moreover from ne low b img have "acceptedShape img"
    unfolding acceptedShape_iff by auto
  ultimately show ?thesis by simp
qed

lemma parse_empty: "dataUrlToSourceImage [] = None"
  by (simp add: dataUrlToSourceImage_def lit_def)

lemma pngImage_accepted: "acceptedShape pngImage"
  by (simp add: acceptedShape_def pngImage_def lit_def isLower_def isLineTerminator_def)

lemma svg_rejected: "dataUrlToSourceImage (lit ''data:image/svg+xml;base64,QUJD'') = None"
  by (simp add: dataUrlToSourceImage_def lit_def isLower_def)

text \<open>
  C10 (as amended): a source image of the accepted shape, that is with mime type
  \<^verbatim>\<open>image/\<close> plus lower-case letters and a non-empty base64 text free of line
  terminators, is returned unchanged by \<^verbatim>\<open>dataUrlToSourceImage\<close> from its data URL;
  the function returns an image only for such data URLs and null for every other
  string; and \<^verbatim>\<open>handleContinueEditing\<close> on a result for which it returns null leaves
  the editor as it is.
\<close>

theorem dataUrl_roundtrip:
  "(acceptedShape img \<longrightarrow> dataUrlToSourceImage (dataUrlOf img) = Some img) \<and>
   (dataUrlToSourceImage s = Some img \<longleftrightarrow> acceptedShape img \<and> s = dataUrlOf img) \<and>
   (dataUrlToSourceImage s = None \<longleftrightarrow> (\<forall>i. acceptedShape i \<longrightarrow> s \<noteq> dataUrlOf i)) \<and>
   (resultImage st = Some s \<and> dataUrlToSourceImage s = None \<longrightarrow> handleContinueEditing st = st)"
proof -
  have b: "dataUrlToSourceImage s = Some img \<longleftrightarrow> acceptedShape img \<and> s = dataUrlOf img"
    for s img
    using parse_accepted parse_Some by blast
  have n: "dataUrlToSourceImage s = None \<longleftrightarrow> (\<forall>i. acceptedShape i \<longrightarrow> s \<noteq> dataUrlOf i)"
    using b by (metis not_Some_eq)
  have c: "handleContinueEditing st = st"
    if "resultImage st = Some s \<and> dataUrlToSourceImage s = None"
    using that by (simp add: handleContinueEditing_def)
  from parse_accepted b n c show ?thesis by blast
qed

theorem dataUrl_roundtrip_witness:
  "acceptedShape pngImage \<and>
   dataUrlOf pngImage = lit ''data:image/png;base64,QUJD'' \<and>
   dataUrlToSourceImage (lit ''data:image/png;base64,QUJD'') = Some pngImage \<and>
   resultImage svgResult = Some (lit ''data:image/svg+xml;base64,QUJD'') \<and>
   dataUrlToSourceImage (lit ''data:image/svg+xml;base64,QUJD'') = None \<and>
   handleContinueEditing svgResult = svgResult"
proof -
  have u: "dataUrlOf pngImage = lit ''data:image/png;base64,QUJD''"
    by (simp add: dataUrlOf_def pngImage_def lit_def)
  have r: "resultImage svgResult = Some (lit ''data:image/svg+xml;base64,QUJD'')"
    by (simp add: svgResult_def)
  from dataUrl_roundtrip[of pngImage "lit ''data:image/png;base64,QUJD''" svgResult]
    dataUrl_roundtrip[of pngImage "lit ''data:image/svg+xml;base64,QUJD''" svgResult]
    pngImage_accepted svg_rejected u r
  show ?thesis by simp
qed

text \<open>
  The claim C10 as stated asks only for a non-empty base64 text; a base64 text broken
  into lines is non-empty, and its data URL is rejected.
\<close>

theorem dataUrl_line_break_rejected:
  "mimeType twoLines = lit ''image/'' @ lit ''png'' \<and> list_all isLower (lit ''png'') \<and>
   lit ''png'' \<noteq> [] \<and> base64 twoLines \<noteq> [] \<and>
   dataUrlToSourceImage (dataUrlOf twoLines) = None"
  by (simp add: twoLines_def dataUrlOf_def dataUrlToSourceImage_def lit_def isLower_def
      isLineTerminator_def)

text \<open>
  C8 (as amended): when the result on display is a data URL that
  \<^verbatim>\<open>dataUrlToSourceImage\<close> accepts, \<^verbatim>\<open>handleContinueEditing\<close> makes the parsed result the
  source image and clears the result and the reference image, leaving the drawing
  stack as it was; the stack is emptied and the layer blanked, at the new picture's
  size, when the new source image then loads into the mounted canvases.  When the
  result on display is rejected by \<^verbatim>\<open>dataUrlToSourceImage\<close>, or there is no result,
  \<^verbatim>\<open>handleContinueEditing\<close> changes nothing.
\<close>

theorem continue_editing:
  "(resultImage st = Some url \<and> dataUrlToSourceImage url = Some newSource \<longrightarrow>
      handleContinueEditing st
        = st\<lparr>image := Some newSource, resultImage := None, referenceImage := None\<rparr> \<and>
      url = dataUrlOf newSource \<and>
      drawingHistory (handleContinueEditing st) = drawingHistory st \<and>
      (mounted st \<and> decode newSource = Some imageEl \<longrightarrow>
         image (drawImageOnCanvas decode (handleContinueEditing st)) = Some newSource \<and>
         resultImage (drawImageOnCanvas decode (handleContinueEditing st)) = None \<and>
         referenceImage (drawImageOnCanvas decode (handleContinueEditing st)) = None \<and>
         drawingHistory (drawImageOnCanvas decode (handleContinueEditing st)) = [] \<and>
         (\<exists>c. sourceDrawingCanvas (drawImageOnCanvas decode (handleContinueEditing st))
                 = Some c \<and>
              bitmap c = blank (width imageEl) (height imageEl)))) \<and>
   (resultImage st = Some url \<and> dataUrlToSourceImage url = None \<longrightarrow>
      handleContinueEditing st = st) \<and>
   (resultImage st = None \<longrightarrow> handleContinueEditing st = st)"
proof -
  have accepted:
    "handleContinueEditing st
        = st\<lparr>image := Some newSource, resultImage := None, referenceImage := None\<rparr> \<and>
      url = dataUrlOf newSource \<and>
      drawingHistory (handleContinueEditing st) = drawingHistory st \<and>
      (mounted st \<and> decode newSource = Some imageEl \<longrightarrow>
         image (drawImageOnCanvas decode (handleContinueEditing st)) = Some newSource \<and>
         resultImage (drawImageOnCanvas decode (handleContinueEditing st)) = None \<and>
         referenceImage (drawImageOnCanvas decode (handleContinueEditing st)) = None \<and>
         drawingHistory (drawImageOnCanvas decode (handleContinueEditing st)) = [] \<and>
         (\<exists>c. sourceDrawingCanvas (drawImageOnCanvas decode (handleContinueEditing st))
                 = Some c \<and>
              bitmap c = blank (width imageEl) (height imageEl)))"
    if a: "resultImage st = Some url \<and> dataUrlToSourceImage url = Some newSource"
  proof -
    from a have ne: "url \<noteq> []"
      using parse_empty by auto
    with a have eq: "handleContinueEditing st
        = st\<lparr>image := Some newSource, resultImage := None, referenceImage := None\<rparr>"
      by (simp add: handleContinueEditing_def)
    from a have url: "url = dataUrlOf newSource"
      using parse_Some by blast
    have wf: "wellFormed (bitmap (newCanvas w h))" for w h
      by (simp add: wellFormed_def newCanvas_def blank_def)
    have load: "mounted st \<and> decode newSource = Some imageEl \<longrightarrow>
              image (drawImageOnCanvas decode (handleContinueEditing st)) = Some newSource \<and>
              resultImage (drawImageOnCanvas decode (handleContinueEditing st)) = None \<and>
              referenceImage (drawImageOnCanvas decode (handleContinueEditing st)) = None \<and>
              drawingHistory (drawImageOnCanvas decode (handleContinueEditing st)) = [] \<and>
              (\<exists>c. sourceDrawingCanvas (drawImageOnCanvas decode (handleContinueEditing st))
                      = Some c \<and>
                   bitmap c = blank (width imageEl) (height imageEl))"
      using bitmap_clearRect_full[OF wf, of "width imageEl" "height imageEl"]
      by (auto simp add: eq drawImageOnCanvas_def mounted_def clearMask_def size_newCanvas)
    from eq url load show ?thesis by simp
  qed
  have rejected: "handleContinueEditing st = st"
    if "resultImage st = Some url \<and> dataUrlToSourceImage url = None"
    using that by (simp add: handleContinueEditing_def)
  have absent: "handleContinueEditing st = st" if "resultImage st = None"
    using that by (simp add: handleContinueEditing_def)
  from accepted rejected absent show ?thesis
    by (intro conjI impI) blast+
qed

theorem continue_editing_witness:
  "resultImage readyEditor = Some (lit ''data:image/png;base64,REVG'') \<and>
   dataUrlToSourceImage (lit ''data:image/png;base64,REVG'')
     = Some \<lparr>base64 = lit ''REVG'', mimeType = lit ''image/png''\<rparr> \<and>
   mounted readyEditor \<and>
   handleContinueEditing readyEditor
     = readyEditor\<lparr>image := Some \<lparr>base64 = lit ''REVG'', mimeType = lit ''image/png''\<rparr>,
                   resultImage := None, referenceImage := None\<rparr> \<and>
   drawingHistory (handleContinueEditing readyEditor) = [bitmap strokeAndGap] \<and>
   drawingHistory (drawImageOnCanvas decodeStub (handleContinueEditing readyEditor)) = [] \<and>
   (\<exists>c. sourceDrawingCanvas (drawImageOnCanvas decodeStub (handleContinueEditing readyEditor))
           = Some c \<and> bitmap c = blank 3 2) \<and>
   resultImage svgResult = Some (lit ''data:image/svg+xml;base64,QUJD'') \<and>
   dataUrlToSourceImage (lit ''data:image/svg+xml;base64,QUJD'') = None \<and>
   handleContinueEditing svgResult = svgResult \<and>
   resultImage initialEditor = None \<and>
   handleContinueEditing initialEditor = initialEditor"
proof -
  have h1: "resultImage readyEditor = Some (lit ''data:image/png;base64,REVG'')"
    by (simp add: ready_fields)
  have h2: "dataUrlToSourceImage (lit ''data:image/png;base64,REVG'')
              = Some \<lparr>base64 = lit ''REVG'', mimeType = lit ''image/png''\<rparr>"
    by (simp add: dataUrlToSourceImage_def lit_def isLower_def isLineTerminator_def)
  have h3: "mounted readyEditor"
    by (simp add: mounted_def readyEditor_def initialEditor_def)
  have h4: "decodeStub \<lparr>base64 = lit ''REVG'', mimeType = lit ''image/png''\<rparr> = Some (blank 3 2)"
    by (simp add: decodeStub_def)
  have h5: "resultImage svgResult = Some (lit ''data:image/svg+xml;base64,QUJD'')"
    by (simp add: svgResult_def)
  have h6: "resultImage initialEditor = None"
    by (simp add: initialEditor_def)
  note t = continue_editing[where decode = decodeStub and imageEl = "blank 3 2"
      and st = readyEditor and url = "lit ''data:image/png;base64,REVG''"
      and newSource = "\<lparr>base64 = lit ''REVG'', mimeType = lit ''image/png''\<rparr>",
      THEN conjunct1, rule_format, OF conjI, OF h1 h2]
  from t have e1: "handleContinueEditing readyEditor
      = readyEditor\<lparr>image := Some \<lparr>base64 = lit ''REVG'', mimeType = lit ''image/png''\<rparr>,
                    resultImage := None, referenceImage := None\<rparr>"
    by blast
  from t have "drawingHistory (handleContinueEditing readyEditor) = drawingHistory readyEditor"
    by blast
  then have e2: "drawingHistory (handleContinueEditing readyEditor) = [bitmap strokeAndGap]"
    by (simp only: ready_fields)
  from t h3 h4 have
    "drawingHistory (drawImageOnCanvas decodeStub (handleContinueEditing readyEditor)) = [] \<and>
     (\<exists>c. sourceDrawingCanvas (drawImageOnCanvas decodeStub (handleContinueEditing readyEditor))
             = Some c \<and>
          bitmap c = blank (width (blank 3 2)) (height (blank 3 2)))"
    by blast
  then have e3:
    "drawingHistory (drawImageOnCanvas decodeStub (handleContinueEditing readyEditor)) = [] \<and>
     (\<exists>c. sourceDrawingCanvas (drawImageOnCanvas decodeStub (handleContinueEditing readyEditor))
             = Some c \<and> bitmap c = blank 3 2)"
    by (simp only: width_blank height_blank)
  from continue_editing[where st = svgResult and url = "lit ''data:image/svg+xml;base64,QUJD''"]
    h5 svg_rejected
  have e4: "handleContinueEditing svgResult = svgResult"
    by blast
  from continue_editing[where st = initialEditor] h6
  have e5: "handleContinueEditing initialEditor = initialEditor"
    by blast
  from h1 h2 h3 e1 e2 e3 h5 svg_rejected e4 h6 e5 show ?thesis by blast
qed

text \<open>
  The claim C8 as stated covers every result image; with a result whose mime type is
  \<^verbatim>\<open>image/svg+xml\<close> the operation replaces nothing and clears nothing.
\<close>

theorem continue_editing_svg_unchanged:
  "resultImage svgResult = Some (lit ''data:image/svg+xml;base64,QUJD'') \<and>
   handleContinueEditing svgResult = svgResult \<and>
   image (handleContinueEditing svgResult) = Some pngImage \<and>
   resultImage (handleContinueEditing svgResult) \<noteq> None \<and>
   drawingHistory (handleContinueEditing svgResult) \<noteq> []"
proof -
  have r: "resultImage svgResult = Some (lit ''data:image/svg+xml;base64,QUJD'')"
    by (simp add: svgResult_def)
  have u: "handleContinueEditing svgResult = svgResult"
    using svg_rejected by (simp add: handleContinueEditing_def r)
  have f: "image svgResult = Some pngImage" "drawingHistory svgResult \<noteq> []"
    by (simp_all add: svgResult_def ready_fields)
  from r u f show ?thesis by simp
qed

end
